theory Spec2Isabelle
  imports Main "HOL-Library.AList" "HOL-Library.Word"
begin

section \<open>Data model of the rule verifier (verify\_data.go)\<close>

text \<open>
  A Go \<^verbatim>\<open>map[K]V\<close> is modelled as an association list with pairwise distinct keys.
  The order of the list is the order in which one particular \<^verbatim>\<open>for ... range\<close>
  loop visits the entries; Go leaves that order unspecified and changes it from one loop to
  the next, so a property of the program has to hold for every order of the list.
  A nil map and an empty map are both the empty list.
\<close>

type_synonym ('k, 'v) gomap = "('k \<times> 'v) list"

definition wfMap :: "('k, 'v) gomap \<Rightarrow> bool" where
  "wfMap m = distinct (map fst m)"

text \<open>\<^verbatim>\<open>m[k]\<close> on a \<^verbatim>\<open>map[string]bool\<close>: the zero value \<^verbatim>\<open>false\<close> for a missing key.\<close>

definition lookupBool :: "(string, bool) gomap \<Rightarrow> string \<Rightarrow> bool" where
  "lookupBool m k = (case map_of m k of None \<Rightarrow> False | Some b \<Rightarrow> b)"

text \<open>
  A value of type \<^verbatim>\<open>any\<close>, by its dynamic type: the four types \<^verbatim>\<open>verifyType\<close>
  asserts, and everything else. A \<^verbatim>\<open>float64\<close> is its 64 bits.
\<close>

datatype val = VBool bool | VInt int | VFloat "64 word" | VStr string | VOther

record AttrSchema =
  name :: string
  valType :: string
  vals :: "(string, bool) gomap"

record ActionSchema =
  tasks_s :: "string list"
  properties_s :: "string list"

record RuleSchema =
  class_s :: string
  patternSchema :: "AttrSchema list"
  actionSchema :: ActionSchema

record Term =
  attrName :: string
  op :: string
  attrVal :: val

record Actions =
  tasks_a :: "string list"
  properties_a :: "(string, string) gomap"
  willReturn :: bool
  willExit :: bool
  thenCall :: string
  elseCall :: string

record Rule =
  rulePattern :: "Term list"
  ruleActions :: Actions

record RuleSet =
  setName :: string
  class_r :: string
  rules :: "Rule list"

record 'v Entity =
  class_e :: string
  attrs :: "(string, 'v) gomap"

subsection \<open>Constants\<close>

definition step :: string where "step = ''step''"
definition stepFailed :: string where "stepFailed = ''stepfailed''"
definition start :: string where "start = ''START''"
definition nextStep :: string where "nextStep = ''nextstep''"
definition done_c :: string where "done_c = ''done''"

text \<open>
  Modelled from the spec: the constants \<^verbatim>\<open>typeBool\<close>, \<^verbatim>\<open>typeInt\<close>,
  \<^verbatim>\<open>typeFloat\<close>, \<^verbatim>\<open>typeStr\<close>, \<^verbatim>\<open>typeEnum\<close>, \<^verbatim>\<open>typeTS\<close> are declared outside
  verify\_data.go; the data model gives the value types as bool, int, float, str, enum, ts.
\<close>

definition typeBool :: string where "typeBool = ''bool''"
definition typeInt :: string where "typeInt = ''int''"
definition typeFloat :: string where "typeFloat = ''float''"
definition typeStr :: string where "typeStr = ''str''"
definition typeEnum :: string where "typeEnum = ''enum''"
definition typeTS :: string where "typeTS = ''ts''"

text \<open>
  Modelled from the spec: the constants \<^verbatim>\<open>opEQ\<close> ... \<^verbatim>\<open>opGE\<close> are declared outside
  verify\_data.go; the operators are given as EQ, NE, LT, LE, GT, GE.
\<close>

definition opEQ :: string where "opEQ = ''EQ''"
definition opNE :: string where "opNE = ''NE''"
definition opLT :: string where "opLT = ''LT''"
definition opLE :: string where "opLE = ''LE''"
definition opGT :: string where "opGT = ''GT''"
definition opGE :: string where "opGE = ''GE''"

text \<open>
  Modelled from the spec: the constant \<^verbatim>\<open>trueStr\<close> is declared outside verify\_data.go;
  the value of the property \<^verbatim>\<open>done\<close> is given as "true" or "false".
\<close>

definition trueStr :: string where "trueStr = ''true''"

text \<open>The two lookup tables, \<^verbatim>\<open>map[string]bool\<close> literals read with \<^verbatim>\<open>m[k]\<close>.\<close>

definition validTypes :: "string \<Rightarrow> bool" where
  "validTypes t =
     lookupBool [(typeBool, True), (typeInt, True), (typeFloat, True), (typeStr, True),
                 (typeEnum, True), (typeTS, True)] t"

definition validOps :: "string \<Rightarrow> bool" where
  "validOps o' =
     lookupBool [(opEQ, True), (opNE, True), (opLT, True), (opLE, True), (opGT, True),
                 (opGE, True)] o'"

subsection \<open>Errors and results\<close>

text \<open>One constructor for each \<^verbatim>\<open>fmt.Errorf\<close> of the file, with the values it formats.\<close>

datatype error =
    ErrClassEmpty
  | ErrPatternSchemaEmpty string
  | ErrAttrNameNotCruxID string
  | ErrInvalidValType string
  | ErrNoEnumVals string
  | ErrEnumValNotCruxID string
  | ErrStepWithoutStart string
  | ErrWFAttrsAbsent string
  | ErrActionSchemaEmpty string
  | ErrTaskNotCruxID string
  | ErrNotTwoProperties string
  | ErrPropNotCruxID string
  | ErrNextStepDoneAbsent string
  | ErrTasksNotSteps string
  | ErrAttrNotInSchema string
  | ErrValTypeMismatch string
  | ErrInvalidOp string
  | ErrNoStepInRule string
  | ErrNoSchema string
  | ErrTaskNotInSchema string
  | ErrPropNotInSchema string
  | ErrReturnAndExit string
  | ErrNeitherNextStepNorDone string
  | ErrNoTasksNoDone string
  | ErrNextStepNotInTasks string
  | ErrRuleSetNotExist string
  | ErrEntityAttrNotInSchema string
  | ErrEntityAttrWrongType string
  | ErrEntityAttrCount

text \<open>
  The message of an error (\<^verbatim>\<open>%v\<close> of a string is the string); \<open>sq\<close> is the
  single quote.
\<close>

definition sq :: string where
  "sq = [CHR 0x27]"

fun errorMsg :: "error \<Rightarrow> string" where
  "errorMsg ErrClassEmpty = ''schema class is empty string''"
| "errorMsg (ErrPatternSchemaEmpty c) = ''pattern-schema for '' @ c @ '' is empty''"
| "errorMsg (ErrAttrNameNotCruxID n) = ''attribute name '' @ n @ '' is not a valid CruxID''"
| "errorMsg (ErrInvalidValType t) = t @ '' is not a valid value-type''"
| "errorMsg (ErrNoEnumVals n) = ''no valid values for enum '' @ n"
| "errorMsg (ErrEnumValNotCruxID v) = ''enum value '' @ v @ '' is not a valid CruxID''"
| "errorMsg (ErrStepWithoutStart c) = ''workflow schema for '' @ c @ '' doesn'' @ sq @ ''t allow step=START''"
| "errorMsg (ErrWFAttrsAbsent c) =
     ''necessary workflow attributes absent in schema for class '' @ c"
| "errorMsg (ErrActionSchemaEmpty c) =
     ''both tasks and properties are empty in schema for class '' @ c"
| "errorMsg (ErrTaskNotCruxID t) = ''task '' @ t @ '' is not a valid CruxID''"
| "errorMsg (ErrNotTwoProperties c) =
     ''action-schema for '' @ c @ '' does not contain exactly two properties''"
| "errorMsg (ErrPropNotCruxID p) = ''property name '' @ p @ '' is not a valid CruxID''"
| "errorMsg (ErrNextStepDoneAbsent c) =
     ''action-schema for '' @ c @ '' does not contain both the properties '' @ sq @
     ''nextstep'' @ sq @ '' and '' @ sq @ ''done'' @ sq"
| "errorMsg (ErrTasksNotSteps c) =
     ''action-schema tasks for '' @ c @
     '' are not the same as valid values for '' @ sq @ ''step'' @ sq @
     '' in pattern-schema''"
| "errorMsg (ErrAttrNotInSchema n) = ''attribute does not exist in schema: '' @ n"
| "errorMsg (ErrValTypeMismatch n) =
     ''value of this attribute does not match schema type: '' @ n"
| "errorMsg (ErrInvalidOp p) = ''invalid operation in rule: '' @ p"
| "errorMsg (ErrNoStepInRule s) = ''no '' @ sq @ ''step'' @ sq @ '' attribute found in a rule in workflow '' @ s"
| "errorMsg (ErrNoSchema c) = ''no schema found for class '' @ c"
| "errorMsg (ErrTaskNotInSchema t) = ''task '' @ t @ '' not found in action-schema''"
| "errorMsg (ErrPropNotInSchema p) = ''property name '' @ p @ '' not found in action-schema''"
| "errorMsg (ErrReturnAndExit s) =
     ''there is a rule with both the RETURN and EXIT instructions in ruleset '' @ s"
| "errorMsg (ErrNeitherNextStepNorDone s) =
     ''rule found with neither '' @ sq @ ''nextstep'' @ sq @ '' nor '' @ sq @ ''done'' @ sq @
     '' in ruleset '' @ s"
| "errorMsg (ErrNoTasksNoDone s) = ''no tasks and no '' @ sq @ ''done=true'' @ sq @ '' in a rule in ruleset '' @ s"
| "errorMsg (ErrNextStepNotInTasks s) =
     ''`nextstep` value not found in `tasks` in a rule in ruleset '' @ s"
| "errorMsg (ErrRuleSetNotExist n) = ''ruleset '' @ n @ '' does not exist''"
| "errorMsg (ErrEntityAttrNotInSchema n) = ''schema does not contain attribute '' @ n"
| "errorMsg (ErrEntityAttrWrongType n) =
     ''attribute '' @ n @ '' in entity has value of wrong type''"
| "errorMsg ErrEntityAttrCount =
     ''entity does not contain all the attributes in its pattern-schema''"

text \<open>
  Every verifier returns the Go pair \<^verbatim>\<open>(bool, error)\<close>: \<^verbatim>\<open>(true, nil)\<close> or
  \<^verbatim>\<open>(false, err)\<close>.
\<close>

type_synonym result = "bool \<times> error option"

definition okR :: result where
  "okR = (True, None)"

definition failR :: "error \<Rightarrow> result" where
  "failR e = (False, Some e)"

subsection \<open>The identifier grammar\<close>

text \<open>
  \<^verbatim>\<open>regexp.MustCompile(`^[a-z][a-z0-9_]*$`).MatchString\<close>: Go's \<^verbatim>\<open>$\<close> without the
  multi-line flag matches at the end of the text only.
\<close>

definition isLower :: "char \<Rightarrow> bool" where
  "isLower c = (c \<in> set ''abcdefghijklmnopqrstuvwxyz'')"

definition isIDChar :: "char \<Rightarrow> bool" where
  "isIDChar c = (c \<in> set ''abcdefghijklmnopqrstuvwxyz0123456789_'')"

fun isCruxID :: "string \<Rightarrow> bool" where
  "isCruxID [] = False"
| "isCruxID (c # cs) = (isLower c \<and> list_all isIDChar cs)"

section \<open>Schema verification\<close>

text \<open>The loop over the keys of \<^verbatim>\<open>attrSchema.vals\<close> (lines 65 to 69).\<close>

fun verifyEnumVals :: "(string, bool) gomap \<Rightarrow> error option" where
  "verifyEnumVals [] = None"
| "verifyEnumVals ((v, b) # m) =
     (if \<not> isCruxID v \<and> v \<noteq> start then Some (ErrEnumValNotCruxID v)
      else verifyEnumVals m)"

text \<open>
  The loop over \<^verbatim>\<open>rs.patternSchema\<close> (lines 57 to 81) with the check after it
  (lines 84 to 88); the two flags are the loop's state.
\<close>

fun patternSchemaLoop ::
  "string \<Rightarrow> bool \<Rightarrow> AttrSchema list \<Rightarrow> bool \<Rightarrow> bool \<Rightarrow> result" where
  "patternSchemaLoop cls isWF [] stepFound stepFailedFound =
     (if isWF \<and> (\<not> stepFound \<or> \<not> stepFailedFound) then failR (ErrWFAttrsAbsent cls)
      else okR)"
| "patternSchemaLoop cls isWF (a # as) stepFound stepFailedFound =
     (if \<not> isCruxID (name a) then failR (ErrAttrNameNotCruxID (name a))
      else if \<not> validTypes (valType a) then failR (ErrInvalidValType (valType a))
      else if valType a = typeEnum \<and> length (vals a) = 0 then failR (ErrNoEnumVals (name a))
      else case verifyEnumVals (vals a) of
        Some e \<Rightarrow> failR e
      | None \<Rightarrow>
          let stepFound' = (stepFound \<or> (name a = step \<and> valType a = typeEnum)) in
          if isWF \<and> name a = step \<and> \<not> lookupBool (vals a) start
          then failR (ErrStepWithoutStart cls)
          else
            let stepFailedFound' =
                  (stepFailedFound \<or> (name a = stepFailed \<and> valType a = typeBool))
            in patternSchemaLoop cls isWF as stepFound' stepFailedFound')"

definition verifyPatternSchema :: "RuleSchema \<Rightarrow> bool \<Rightarrow> result" where
  "verifyPatternSchema rs isWF =
     (if length (patternSchema rs) = 0 then failR (ErrPatternSchemaEmpty (class_s rs))
      else patternSchemaLoop (class_s rs) isWF (patternSchema rs) False False)"

text \<open>The loop over the tasks (lines 96 to 100).\<close>

fun verifyTaskNames :: "string list \<Rightarrow> error option" where
  "verifyTaskNames [] = None"
| "verifyTaskNames (t # ts) =
     (if \<not> isCruxID t then Some (ErrTaskNotCruxID t) else verifyTaskNames ts)"

text \<open>
  The loop over the properties (lines 108 to 116): an error, or the two flags
  \<^verbatim>\<open>nextStepFound\<close> and \<^verbatim>\<open>doneFound\<close>.
\<close>

fun propertiesLoop :: "string list \<Rightarrow> bool \<Rightarrow> bool \<Rightarrow> error + (bool \<times> bool)" where
  "propertiesLoop [] nextStepFound doneFound = Inr (nextStepFound, doneFound)"
| "propertiesLoop (p # ps) nextStepFound doneFound =
     (if \<not> isCruxID p then Inl (ErrPropNotCruxID p)
      else if p = nextStep then propertiesLoop ps True doneFound
      else if p = done_c then propertiesLoop ps nextStepFound True
      else propertiesLoop ps nextStepFound doneFound)"

text \<open>
  \<^verbatim>\<open>getTasksMapForWF\<close>: every task, then \<^verbatim>\<open>START\<close>, is stored with the value
  \<^verbatim>\<open>true\<close>; storing under a key that is there already replaces its value.
\<close>

definition getTasksMapForWF :: "string list \<Rightarrow> (string, bool) gomap" where
  "getTasksMapForWF ts = AList.update start True (fold (\<lambda>t tm. AList.update t True tm) ts [])"

text \<open>\<^verbatim>\<open>getStepAttrVals\<close>: the values of the first attribute called \<^verbatim>\<open>step\<close>, or nil.\<close>

fun getStepAttrValsLoop :: "AttrSchema list \<Rightarrow> (string, bool) gomap" where
  "getStepAttrValsLoop [] = []"
| "getStepAttrValsLoop (ps # pss) = (if name ps = step then vals ps else getStepAttrValsLoop pss)"

definition getStepAttrVals :: "RuleSchema \<Rightarrow> (string, bool) gomap" where
  "getStepAttrVals rs = getStepAttrValsLoop (patternSchema rs)"

text \<open>
  \<^verbatim>\<open>reflect.DeepEqual\<close> on two maps: both nil or both not, the same number of entries,
  and every key of the first is a key of the second with an equal value. The first
  argument at its only call is the map of \<^verbatim>\<open>getTasksMapForWF\<close>, which is never nil and
  never empty, so that a nil second argument differs from it in the number of entries, as the
  empty list does here.
\<close>

definition deepEqual :: "(string, bool) gomap \<Rightarrow> (string, bool) gomap \<Rightarrow> bool" where
  "deepEqual m1 m2 =
     (length m1 = length m2 \<and> list_all (\<lambda>(k, v). map_of m2 k = Some v) m1)"

definition verifyActionSchema :: "RuleSchema \<Rightarrow> bool \<Rightarrow> result" where
  "verifyActionSchema rs isWF =
     (if length (tasks_s (actionSchema rs)) = 0 \<and> length (properties_s (actionSchema rs)) = 0
      then failR (ErrActionSchemaEmpty (class_s rs))
      else case verifyTaskNames (tasks_s (actionSchema rs)) of
        Some e \<Rightarrow> failR e
      | None \<Rightarrow>
          if isWF \<and> length (properties_s (actionSchema rs)) \<noteq> 2
          then failR (ErrNotTwoProperties (class_s rs))
          else case propertiesLoop (properties_s (actionSchema rs)) False False of
            Inl e \<Rightarrow> failR e
          | Inr (nextStepFound, doneFound) \<Rightarrow>
              if isWF \<and> (\<not> nextStepFound \<or> \<not> doneFound)
              then failR (ErrNextStepDoneAbsent (class_s rs))
              else if isWF \<and>
                \<not> deepEqual (getTasksMapForWF (tasks_s (actionSchema rs))) (getStepAttrVals rs)
              then failR (ErrTasksNotSteps (class_s rs))
              else okR)"

definition verifyRuleSchema :: "RuleSchema \<Rightarrow> bool \<Rightarrow> result" where
  "verifyRuleSchema rs isWF =
     (if length (class_s rs) = 0 then failR ErrClassEmpty
      else case snd (verifyPatternSchema rs isWF) of
        Some err \<Rightarrow> failR err
      | None \<Rightarrow>
          (case snd (verifyActionSchema rs isWF) of
             Some err \<Rightarrow> failR err
           | None \<Rightarrow> okR))"

section \<open>Rule-set verification\<close>

text \<open>
  The registry \<^verbatim>\<open>ruleSchemas\<close> is a global declared outside verify\_data.go; it is read
  in order by \<^verbatim>\<open>getSchema\<close> and passed here as a list.
\<close>

fun getSchema :: "RuleSchema list \<Rightarrow> string \<Rightarrow> error + RuleSchema" where
  "getSchema [] cls = Inl (ErrNoSchema cls)"
| "getSchema (s # ss) cls = (if cls = class_s s then Inr s else getSchema ss cls)"

fun getTypeLoop :: "AttrSchema list \<Rightarrow> string \<Rightarrow> string" where
  "getTypeLoop [] n = []"
| "getTypeLoop (as # ass) n = (if name as = n then valType as else getTypeLoop ass n)"

definition getType :: "RuleSchema \<Rightarrow> string \<Rightarrow> string" where
  "getType rs n = getTypeLoop (patternSchema rs) n"

fun isStringInArray :: "string \<Rightarrow> string list \<Rightarrow> bool" where
  "isStringInArray s [] = False"
| "isStringInArray s (a # arr) = (if a = s then True else isStringInArray s arr)"

text \<open>
  \<^verbatim>\<open>verifyType\<close>. The layout \<^verbatim>\<open>timeLayout\<close> is declared outside verify\_data.go and
  \<^verbatim>\<open>time.Parse\<close> belongs to Go's library: \<open>parseTS s\<close> says that
  \<^verbatim>\<open>time.Parse(timeLayout, s)\<close> returns no error. A failed assertion
  \<^verbatim>\<open>val.(string)\<close> leaves the empty string. A type that is none of the six leaves
  \<^verbatim>\<open>ok\<close> at its zero value.
\<close>

definition verifyType :: "(string \<Rightarrow> bool) \<Rightarrow> val \<Rightarrow> string \<Rightarrow> bool" where
  "verifyType parseTS v t =
     (if t = typeBool then (case v of VBool b \<Rightarrow> True | _ \<Rightarrow> False)
      else if t = typeInt then (case v of VInt i \<Rightarrow> True | _ \<Rightarrow> False)
      else if t = typeFloat then (case v of VFloat f \<Rightarrow> True | _ \<Rightarrow> False)
      else if t = typeStr \<or> t = typeEnum then (case v of VStr s \<Rightarrow> True | _ \<Rightarrow> False)
      else if t = typeTS then parseTS (case v of VStr s \<Rightarrow> s | _ \<Rightarrow> [])
      else False)"

text \<open>The body of the loop over the terms of a rule (lines 167 to 182).\<close>

definition verifyTerm :: "(string \<Rightarrow> bool) \<Rightarrow> RuleSchema \<Rightarrow> Term \<Rightarrow> error option" where
  "verifyTerm parseTS schema term =
     (let valType0 = getType schema (attrName term) in
      if valType0 = [] \<and> \<not> isStringInArray (attrName term) (tasks_s (actionSchema schema))
      then Some (ErrAttrNotInSchema (attrName term))
      else
        let valType1 = (if valType0 = [] then typeBool else valType0) in
        if \<not> verifyType parseTS (attrVal term) valType1
        then Some (ErrValTypeMismatch (attrName term))
        else if \<not> validOps (op term) then Some (ErrInvalidOp (op term))
        else None)"

fun verifyTerms :: "(string \<Rightarrow> bool) \<Rightarrow> RuleSchema \<Rightarrow> Term list \<Rightarrow> error option" where
  "verifyTerms parseTS schema [] = None"
| "verifyTerms parseTS schema (term # terms) =
     (case verifyTerm parseTS schema term of
        Some e \<Rightarrow> Some e
      | None \<Rightarrow> verifyTerms parseTS schema terms)"

text \<open>The search for a term on \<^verbatim>\<open>step\<close> (lines 186 to 192).\<close>

fun stepFoundLoop :: "Term list \<Rightarrow> bool" where
  "stepFoundLoop [] = False"
| "stepFoundLoop (term # terms) = (if attrName term = step then True else stepFoundLoop terms)"

text \<open>The body of the loop over the rules (lines 166 to 196).\<close>

definition verifyRulePattern ::
  "(string \<Rightarrow> bool) \<Rightarrow> string \<Rightarrow> RuleSchema \<Rightarrow> bool \<Rightarrow> Rule \<Rightarrow> error option" where
  "verifyRulePattern parseTS sname schema isWF rule =
     (case verifyTerms parseTS schema (rulePattern rule) of
        Some e \<Rightarrow> Some e
      | None \<Rightarrow>
          if isWF \<and> \<not> stepFoundLoop (rulePattern rule) then Some (ErrNoStepInRule sname)
          else None)"

fun rulePatternsLoop ::
  "(string \<Rightarrow> bool) \<Rightarrow> string \<Rightarrow> RuleSchema \<Rightarrow> bool \<Rightarrow> Rule list \<Rightarrow> result" where
  "rulePatternsLoop parseTS sname schema isWF [] = okR"
| "rulePatternsLoop parseTS sname schema isWF (rule # rs) =
     (case verifyRulePattern parseTS sname schema isWF rule of
        Some e \<Rightarrow> failR e
      | None \<Rightarrow> rulePatternsLoop parseTS sname schema isWF rs)"

definition verifyRulePatterns ::
  "(string \<Rightarrow> bool) \<Rightarrow> RuleSet \<Rightarrow> RuleSchema \<Rightarrow> bool \<Rightarrow> result" where
  "verifyRulePatterns parseTS ruleSet schema isWF =
     rulePatternsLoop parseTS (setName ruleSet) schema isWF (rules ruleSet)"

text \<open>The loop over the tasks of a rule (lines 251 to 255).\<close>

fun verifyRuleTasks :: "string list \<Rightarrow> string list \<Rightarrow> error option" where
  "verifyRuleTasks declared [] = None"
| "verifyRuleTasks declared (t # ts) =
     (if \<not> isStringInArray t declared then Some (ErrTaskNotInSchema t)
      else verifyRuleTasks declared ts)"

text \<open>The loop over the property names of a rule (lines 256 to 260).\<close>

fun verifyRuleProps :: "string list \<Rightarrow> (string, string) gomap \<Rightarrow> error option" where
  "verifyRuleProps declared [] = None"
| "verifyRuleProps declared ((propName, v) # props) =
     (if \<not> isStringInArray propName declared then Some (ErrPropNotInSchema propName)
      else verifyRuleProps declared props)"

fun nextStepAndDoneLoop :: "(string, string) gomap \<Rightarrow> bool \<Rightarrow> bool \<Rightarrow> bool \<times> bool" where
  "nextStepAndDoneLoop [] nsFound doneFound = (nsFound, doneFound)"
| "nextStepAndDoneLoop ((n, v) # props) nsFound doneFound =
     nextStepAndDoneLoop props (nsFound \<or> n = nextStep)
       (doneFound \<or> (n = done_c \<and> v = trueStr))"

definition areNextStepAndDoneInProps :: "(string, string) gomap \<Rightarrow> bool \<times> bool" where
  "areNextStepAndDoneInProps props = nextStepAndDoneLoop props False False"

fun getNextStep :: "(string, string) gomap \<Rightarrow> string" where
  "getNextStep [] = []"
| "getNextStep ((n, v) # props) = (if n = nextStep then v else getNextStep props)"

text \<open>The body of the loop over the rules (lines 251 to 277).\<close>

definition verifyRuleAction :: "string \<Rightarrow> RuleSchema \<Rightarrow> bool \<Rightarrow> Rule \<Rightarrow> error option" where
  "verifyRuleAction sname schema isWF rule =
     (case verifyRuleTasks (tasks_s (actionSchema schema)) (tasks_a (ruleActions rule)) of
        Some e \<Rightarrow> Some e
      | None \<Rightarrow>
     (case verifyRuleProps (properties_s (actionSchema schema))
             (properties_a (ruleActions rule)) of
        Some e \<Rightarrow> Some e
      | None \<Rightarrow>
          if willReturn (ruleActions rule) \<and> willExit (ruleActions rule)
          then Some (ErrReturnAndExit sname)
          else if isWF then
            (case areNextStepAndDoneInProps (properties_a (ruleActions rule)) of
               (nsFound, doneFound) \<Rightarrow>
                 if \<not> nsFound \<and> \<not> doneFound then Some (ErrNeitherNextStepNorDone sname)
                 else if \<not> doneFound \<and> length (tasks_a (ruleActions rule)) = 0
                 then Some (ErrNoTasksNoDone sname)
                 else
                   let currNS = getNextStep (properties_a (ruleActions rule)) in
                   if length currNS > 0 \<and> \<not> isStringInArray currNS (tasks_a (ruleActions rule))
                   then Some (ErrNextStepNotInTasks sname)
                   else None)
          else None))"

fun ruleActionsLoop :: "string \<Rightarrow> RuleSchema \<Rightarrow> bool \<Rightarrow> Rule list \<Rightarrow> result" where
  "ruleActionsLoop sname schema isWF [] = okR"
| "ruleActionsLoop sname schema isWF (rule # rs) =
     (case verifyRuleAction sname schema isWF rule of
        Some e \<Rightarrow> failR e
      | None \<Rightarrow> ruleActionsLoop sname schema isWF rs)"

definition verifyRuleActions :: "RuleSet \<Rightarrow> RuleSchema \<Rightarrow> bool \<Rightarrow> result" where
  "verifyRuleActions ruleSet schema isWF =
     ruleActionsLoop (setName ruleSet) schema isWF (rules ruleSet)"

definition verifyRuleSet ::
  "(string \<Rightarrow> bool) \<Rightarrow> RuleSchema list \<Rightarrow> RuleSet \<Rightarrow> bool \<Rightarrow> result" where
  "verifyRuleSet parseTS ruleSchemas rs isWF =
     (case getSchema ruleSchemas (class_r rs) of
        Inl err \<Rightarrow> failR err
      | Inr schema \<Rightarrow>
          (case snd (verifyRulePatterns parseTS rs schema isWF) of
             Some err \<Rightarrow> failR err
           | None \<Rightarrow>
               (case snd (verifyRuleActions rs schema isWF) of
                  Some err \<Rightarrow> failR err
                | None \<Rightarrow> okR)))"

section \<open>Referential checks\<close>

text \<open>
  The registry \<^verbatim>\<open>ruleSets\<close> is a global map from names to rule sets, declared outside
  verify\_data.go and passed here as an argument.
\<close>

definition doesRuleSetExist :: "(string, RuleSet) gomap \<Rightarrow> string \<Rightarrow> result" where
  "doesRuleSetExist ruleSets n =
     (if length n = 0 then okR
      else if map_of ruleSets n = None then failR (ErrRuleSetNotExist n)
      else okR)"

text \<open>
  The inner loop over the rules of one rule set: the pair that \<^verbatim>\<open>doReferentialChecks\<close>
  returns from inside the loop, or nothing when the loop runs to its end.
\<close>

fun refRulesLoop :: "(string, RuleSet) gomap \<Rightarrow> Rule list \<Rightarrow> result option" where
  "refRulesLoop ruleSets [] = None"
| "refRulesLoop ruleSets (r # rs) =
     (case doesRuleSetExist ruleSets (thenCall (ruleActions r)) of
        (ok, err) \<Rightarrow>
          if \<not> ok then Some (False, err)
          else
            (case doesRuleSetExist ruleSets (elseCall (ruleActions r)) of
               (ok', err') \<Rightarrow>
                 if \<not> ok' then Some (False, err') else refRulesLoop ruleSets rs))"

text \<open>
  The outer loop visits the entries of the registry; the first argument is the registry that
  the names are looked up in, the second the entries still to visit.
\<close>

fun refSetsLoop :: "(string, RuleSet) gomap \<Rightarrow> (string, RuleSet) gomap \<Rightarrow> result" where
  "refSetsLoop ruleSets [] = okR"
| "refSetsLoop ruleSets ((n, rs) # rest) =
     (case refRulesLoop ruleSets (rules rs) of
        Some res \<Rightarrow> res
      | None \<Rightarrow> refSetsLoop ruleSets rest)"

definition doReferentialChecks :: "(string, RuleSet) gomap \<Rightarrow> result" where
  "doReferentialChecks ruleSets = refSetsLoop ruleSets ruleSets"

section \<open>Entity verification\<close>

text \<open>
  \<^verbatim>\<open>convertEntityAttrVal\<close> is declared outside verify\_data.go and only its error is
  read: \<open>converts v t\<close> says that \<^verbatim>\<open>convertEntityAttrVal(v, t)\<close> returns no error.
\<close>

fun entityAttrsLoop ::
  "('v \<Rightarrow> string \<Rightarrow> bool) \<Rightarrow> RuleSchema \<Rightarrow> (string, 'v) gomap \<Rightarrow> error option" where
  "entityAttrsLoop converts rs [] = None"
| "entityAttrsLoop converts rs ((aName, aVal) # rest) =
     (let t = getType rs aName in
      if t = [] then Some (ErrEntityAttrNotInSchema aName)
      else if \<not> converts aVal t then Some (ErrEntityAttrWrongType aName)
      else entityAttrsLoop converts rs rest)"

definition verifyEntity ::
  "('v \<Rightarrow> string \<Rightarrow> bool) \<Rightarrow> RuleSchema list \<Rightarrow> 'v Entity \<Rightarrow> result" where
  "verifyEntity converts ruleSchemas e =
     (case getSchema ruleSchemas (class_e e) of
        Inl err \<Rightarrow> failR err
      | Inr rs \<Rightarrow>
          (case entityAttrsLoop converts rs (attrs e) of
             Some err \<Rightarrow> failR err
           | None \<Rightarrow>
               if length (attrs e) \<noteq> length (patternSchema rs) then failR ErrEntityAttrCount
               else okR))"

section \<open>Notions used in the statements\<close>

text \<open>
  The names a rule calls, in the order \<^verbatim>\<open>doReferentialChecks\<close> looks at them, and the
  names of a whole registry, rule set by rule set in the order of one run of the loop.
\<close>

definition ruleCalls :: "Rule \<Rightarrow> string list" where
  "ruleCalls r = [thenCall (ruleActions r), elseCall (ruleActions r)]"

definition allCalls :: "(string, RuleSet) gomap \<Rightarrow> string list" where
  "allCalls ruleSets = concat (map (\<lambda>(n, rs). concat (map ruleCalls (rules rs))) ruleSets)"

text \<open>A name resolves when it is empty or the name of a registered rule set.\<close>

definition resolves :: "(string, RuleSet) gomap \<Rightarrow> string \<Rightarrow> bool" where
  "resolves ruleSets c = (c = [] \<or> c \<in> fst ` set ruleSets)"

text \<open>The result that names the first name of a list that does not resolve.\<close>

definition firstUnresolved :: "(string, RuleSet) gomap \<Rightarrow> string list \<Rightarrow> result" where
  "firstUnresolved ruleSets cs =
     (case find (\<lambda>c. \<not> resolves ruleSets c) cs of
        None \<Rightarrow> (True, None)
      | Some c \<Rightarrow> (False, Some (ErrRuleSetNotExist c)))"

text \<open>The terms of a rule's pattern that are on \<^verbatim>\<open>step\<close>.\<close>

definition stepTerms :: "Rule \<Rightarrow> Term list" where
  "stepTerms rule = filter (\<lambda>term. attrName term = step) (rulePattern rule)"


section \<open>The same input in another order\<close>

text \<open>
  Two lists are the same Go map when both have distinct keys and the same entries; they
  differ at most in the order a loop visits them. Two schemas, rule sets or entities are the
  same input when they agree in everything but the order of their maps.
\<close>

definition sameMap :: "('k, 'v) gomap \<Rightarrow> ('k, 'v) gomap \<Rightarrow> bool" where
  "sameMap m1 m2 = (wfMap m1 \<and> wfMap m2 \<and> set m1 = set m2)"

definition sameAttr :: "AttrSchema \<Rightarrow> AttrSchema \<Rightarrow> bool" where
  "sameAttr a b = (name a = name b \<and> valType a = valType b \<and> sameMap (vals a) (vals b))"

definition sameSchema :: "RuleSchema \<Rightarrow> RuleSchema \<Rightarrow> bool" where
  "sameSchema s1 s2 =
     (class_s s1 = class_s s2 \<and> list_all2 sameAttr (patternSchema s1) (patternSchema s2) \<and>
      actionSchema s1 = actionSchema s2)"

definition sameActions :: "Actions \<Rightarrow> Actions \<Rightarrow> bool" where
  "sameActions a b =
     (tasks_a a = tasks_a b \<and> sameMap (properties_a a) (properties_a b) \<and>
      willReturn a = willReturn b \<and> willExit a = willExit b \<and>
      thenCall a = thenCall b \<and> elseCall a = elseCall b)"

definition sameRule :: "Rule \<Rightarrow> Rule \<Rightarrow> bool" where
  "sameRule r1 r2 =
     (rulePattern r1 = rulePattern r2 \<and> sameActions (ruleActions r1) (ruleActions r2))"

definition sameRuleSet :: "RuleSet \<Rightarrow> RuleSet \<Rightarrow> bool" where
  "sameRuleSet rs1 rs2 =
     (setName rs1 = setName rs2 \<and> class_r rs1 = class_r rs2 \<and>
      list_all2 sameRule (rules rs1) (rules rs2))"

definition sameEntity :: "'v Entity \<Rightarrow> 'v Entity \<Rightarrow> bool" where
  "sameEntity e1 e2 = (class_e e1 = class_e e2 \<and> sameMap (attrs e1) (attrs e2))"

section \<open>Example data\<close>

text \<open>
  The workflow schema of class \<^verbatim>\<open>order\<close>: the steps \<^verbatim>\<open>START\<close>, \<^verbatim>\<open>approve\<close>
  and \<^verbatim>\<open>reject\<close>, the flag \<^verbatim>\<open>stepfailed\<close>, the two tasks and the two properties.
\<close>

definition orderSchema :: RuleSchema where
  "orderSchema =
     \<lparr>class_s = ''order'',
      patternSchema =
        [\<lparr>name = ''step'', valType = typeEnum,
          vals = [(''START'', True), (''approve'', True), (''reject'', True)]\<rparr>,
         \<lparr>name = ''stepfailed'', valType = typeBool, vals = []\<rparr>],
      actionSchema = \<lparr>tasks_s = [''approve'', ''reject''],
                      properties_s = [''nextstep'', ''done'']\<rparr>\<rparr>"

text \<open>A schema with nothing in it but its class.\<close>

definition emptySchema :: "string \<Rightarrow> RuleSchema" where
  "emptySchema c =
     \<lparr>class_s = c, patternSchema = [], actionSchema = \<lparr>tasks_s = [], properties_s = []\<rparr>\<rparr>"

text \<open>A registry of one rule set \<^verbatim>\<open>R1\<close>, whose only rule calls \<^verbatim>\<open>R2\<close>.\<close>

definition r1Registry :: "(string, RuleSet) gomap" where
  "r1Registry =
     [(''R1'', \<lparr>setName = ''R1'', class_r = ''order'',
        rules = [\<lparr>rulePattern = [],
                  ruleActions = \<lparr>tasks_a = [], properties_a = [], willReturn = False,
                                 willExit = False, thenCall = ''R2'', elseCall = []\<rparr>\<rparr>]\<rparr>)]"

text \<open>
  A stand-in for \<^verbatim>\<open>time.Parse\<close> in the examples, none of which has a timestamp: it
  accepts nothing.
\<close>

definition noTS :: "string \<Rightarrow> bool" where
  "noTS s = False"

text \<open>Rules for the \<^verbatim>\<open>order\<close> workflow: one with two terms on \<^verbatim>\<open>step\<close>, one with none.\<close>

definition twoStepRule :: Rule where
  "twoStepRule =
     \<lparr>rulePattern =
        [\<lparr>attrName = ''step'', op = opEQ, attrVal = VStr ''START''\<rparr>,
         \<lparr>attrName = ''step'', op = opEQ, attrVal = VStr ''approve''\<rparr>],
      ruleActions = \<lparr>tasks_a = [''approve''], properties_a = [(''nextstep'', ''approve'')],
                     willReturn = False, willExit = False, thenCall = [], elseCall = []\<rparr>\<rparr>"

definition twoStepRuleSet :: RuleSet where
  "twoStepRuleSet = \<lparr>setName = ''wf'', class_r = ''order'', rules = [twoStepRule]\<rparr>"

definition noStepRule :: Rule where
  "noStepRule =
     \<lparr>rulePattern = [\<lparr>attrName = ''stepfailed'', op = opEQ, attrVal = VBool False\<rparr>],
      ruleActions = \<lparr>tasks_a = [''approve''], properties_a = [(''nextstep'', ''approve'')],
                     willReturn = False, willExit = False, thenCall = [], elseCall = []\<rparr>\<rparr>"

definition noStepRuleSet :: RuleSet where
  "noStepRuleSet = \<lparr>setName = ''wf'', class_r = ''order'', rules = [noStepRule]\<rparr>"







text \<open>
  Workflow rules that differ in their actions: \<^verbatim>\<open>done\<close> set to "false" and no
  \<^verbatim>\<open>nextstep\<close>; \<^verbatim>\<open>done\<close> set to "true" and no task; \<^verbatim>\<open>nextstep\<close> set to the
  empty string; \<^verbatim>\<open>nextstep\<close> set to a task the rule does not have.
\<close>

definition doneFalseRule :: Rule where
  "doneFalseRule =
     \<lparr>rulePattern = [\<lparr>attrName = ''step'', op = opEQ, attrVal = VStr ''START''\<rparr>],
      ruleActions = \<lparr>tasks_a = [''approve''], properties_a = [(''done'', ''false'')],
                     willReturn = False, willExit = False, thenCall = [], elseCall = []\<rparr>\<rparr>"

definition doneFalseRuleSet :: RuleSet where
  "doneFalseRuleSet = \<lparr>setName = ''wf'', class_r = ''order'', rules = [doneFalseRule]\<rparr>"

definition doneTrueRule :: Rule where
  "doneTrueRule =
     \<lparr>rulePattern = [\<lparr>attrName = ''step'', op = opEQ, attrVal = VStr ''approve''\<rparr>],
      ruleActions = \<lparr>tasks_a = [], properties_a = [(''done'', trueStr)],
                     willReturn = False, willExit = False, thenCall = [], elseCall = []\<rparr>\<rparr>"

definition doneTrueRuleSet :: RuleSet where
  "doneTrueRuleSet = \<lparr>setName = ''wf'', class_r = ''order'', rules = [doneTrueRule]\<rparr>"

definition emptyNextStepRule :: Rule where
  "emptyNextStepRule =
     \<lparr>rulePattern = [\<lparr>attrName = ''step'', op = opEQ, attrVal = VStr ''START''\<rparr>],
      ruleActions = \<lparr>tasks_a = [''approve''], properties_a = [(''nextstep'', [])],
                     willReturn = False, willExit = False, thenCall = [], elseCall = []\<rparr>\<rparr>"

definition emptyNextStepRuleSet :: RuleSet where
  "emptyNextStepRuleSet = \<lparr>setName = ''wf'', class_r = ''order'', rules = [emptyNextStepRule]\<rparr>"

definition wrongNextStepRule :: Rule where
  "wrongNextStepRule =
     \<lparr>rulePattern = [\<lparr>attrName = ''step'', op = opEQ, attrVal = VStr ''START''\<rparr>],
      ruleActions = \<lparr>tasks_a = [''approve''], properties_a = [(''nextstep'', ''reject'')],
                     willReturn = False, willExit = False, thenCall = [], elseCall = []\<rparr>\<rparr>"

definition wrongNextStepRuleSet :: RuleSet where
  "wrongNextStepRuleSet = \<lparr>setName = ''wf'', class_r = ''order'', rules = [wrongNextStepRule]\<rparr>"

text \<open>
  The \<^verbatim>\<open>order\<close> schema with \<^verbatim>\<open>stepfailed\<close> declared a second time, as an int.
\<close>

definition dupSchema :: RuleSchema where
  "dupSchema =
     orderSchema\<lparr>patternSchema :=
       patternSchema orderSchema @ [\<lparr>name = ''stepfailed'', valType = typeInt, vals = []\<rparr>]\<rparr>"


definition fullEntity :: "string Entity" where
  "fullEntity =
     \<lparr>class_e = ''order'', attrs = [(''step'', ''approve''), (''stepfailed'', ''false'')]\<rparr>"


definition allConvert :: "string \<Rightarrow> string \<Rightarrow> bool" where
  "allConvert v t = True"




text \<open>
  One schema with two enum values that are no identifiers, visited in either order; a rule
  set with the given properties; a rule set with one rule that calls another rule set; and
  the entity with both attributes in the other order.
\<close>

definition badEnumRedFirst :: RuleSchema where
  "badEnumRedFirst =
     \<lparr>class_s = ''paint'',
      patternSchema =
        [\<lparr>name = ''colour'', valType = typeEnum, vals = [(''Red'', True), (''Blue'', True)]\<rparr>],
      actionSchema = \<lparr>tasks_s = [''mix''], properties_s = []\<rparr>\<rparr>"

definition badEnumBlueFirst :: RuleSchema where
  "badEnumBlueFirst =
     \<lparr>class_s = ''paint'',
      patternSchema =
        [\<lparr>name = ''colour'', valType = typeEnum, vals = [(''Blue'', True), (''Red'', True)]\<rparr>],
      actionSchema = \<lparr>tasks_s = [''mix''], properties_s = []\<rparr>\<rparr>"

definition twoPropsRuleSet :: "(string, string) gomap \<Rightarrow> RuleSet" where
  "twoPropsRuleSet props =
     \<lparr>setName = ''wf'', class_r = ''order'',
      rules =
        [\<lparr>rulePattern = [\<lparr>attrName = ''step'', op = opEQ, attrVal = VStr ''START''\<rparr>],
          ruleActions = \<lparr>tasks_a = [''approve''], properties_a = props, willReturn = False,
                         willExit = False, thenCall = [], elseCall = []\<rparr>\<rparr>]\<rparr>"

definition callingRuleSet :: "string \<Rightarrow> string \<Rightarrow> RuleSet" where
  "callingRuleSet n c =
     \<lparr>setName = n, class_r = ''order'',
      rules = [\<lparr>rulePattern = [],
                ruleActions = \<lparr>tasks_a = [], properties_a = [], willReturn = False,
                               willExit = False, thenCall = c, elseCall = []\<rparr>\<rparr>]\<rparr>"

definition fullEntitySwapped :: "string Entity" where
  "fullEntitySwapped =
     \<lparr>class_e = ''order'', attrs = [(''stepfailed'', ''false''), (''step'', ''approve'')]\<rparr>"

section \<open>Properties\<close>

text \<open>The defining equations of the constants, for evaluation.\<close>

lemmas const_defs = step_def stepFailed_def start_def nextStep_def done_c_def
  typeBool_def typeInt_def typeFloat_def typeStr_def typeEnum_def typeTS_def
  opEQ_def opNE_def opLT_def opLE_def opGT_def opGE_def trueStr_def

subsection \<open>Shape of the results\<close>

lemma patternSchemaLoop_shape:
  "patternSchemaLoop c w as sf sff = okR \<or> (\<exists>e. patternSchemaLoop c w as sf sff = failR e)"
  by (induction as arbitrary: sf sff) (auto simp: Let_def split: option.splits)

lemma verifyPatternSchema_shape:
  "verifyPatternSchema rs w = okR \<or> (\<exists>e. verifyPatternSchema rs w = failR e)"
  using patternSchemaLoop_shape by (auto simp: verifyPatternSchema_def)

lemma verifyActionSchema_shape:
  "verifyActionSchema rs w = okR \<or> (\<exists>e. verifyActionSchema rs w = failR e)"
  by (auto simp: verifyActionSchema_def split: option.splits sum.splits)

subsection \<open>Order of the checks of a schema\<close>

text \<open>
  C8. \<^verbatim>\<open>verifyRuleSchema\<close> stops at the first violation, in a fixed order: a schema whose
  class is the empty string gets the class-is-empty error whatever else is wrong with it;
  with a class that is not empty, an error of the pattern-schema is the result, whatever the
  action-schema holds; and only when the pattern-schema passes is the result that of the
  action-schema. The result carries one error, never a collection.
\<close>

theorem verifyRuleSchema_fail_fast:
  "(class_s rs = [] \<longrightarrow> verifyRuleSchema rs isWF = (False, Some ErrClassEmpty)) \<and>
   (class_s rs \<noteq> [] \<longrightarrow> verifyPatternSchema rs isWF = (False, Some e) \<longrightarrow>
      verifyRuleSchema rs isWF = (False, Some e)) \<and>
   (class_s rs \<noteq> [] \<longrightarrow> verifyPatternSchema rs isWF = (True, None) \<longrightarrow>
      verifyRuleSchema rs isWF = verifyActionSchema rs isWF)"
proof (intro conjI impI)
  assume "class_s rs = []"
  then show "verifyRuleSchema rs isWF = (False, Some ErrClassEmpty)"
    by (simp add: verifyRuleSchema_def failR_def)
next
  assume "class_s rs \<noteq> []" "verifyPatternSchema rs isWF = (False, Some e)"
  then show "verifyRuleSchema rs isWF = (False, Some e)"
    by (simp add: verifyRuleSchema_def failR_def)
next
  assume a: "class_s rs \<noteq> []" "verifyPatternSchema rs isWF = (True, None)"
  from verifyActionSchema_shape [of rs isWF]
  show "verifyRuleSchema rs isWF = verifyActionSchema rs isWF"
    using a by (auto simp: verifyRuleSchema_def failR_def okR_def)
qed

text \<open>
  The three cases at schemas that are wrong in both halves: no class at all; a class but no
  attributes and no actions; and the \<^verbatim>\<open>order\<close> schema, whose pattern-schema passes.
\<close>

theorem verifyRuleSchema_fail_fast_witness:
  "verifyRuleSchema (emptySchema []) True = (False, Some ErrClassEmpty) \<and>
   verifyRuleSchema (emptySchema ''order'') True =
     (False, Some (ErrPatternSchemaEmpty ''order'')) \<and>
   verifyRuleSchema orderSchema True = verifyActionSchema orderSchema True"
proof -
  have 1: "class_s (emptySchema []) = []"
    by (simp add: emptySchema_def)
  have 2: "class_s (emptySchema ''order'') \<noteq> []"
    by (simp add: emptySchema_def)
  have 3: "verifyPatternSchema (emptySchema ''order'') True =
             (False, Some (ErrPatternSchemaEmpty ''order''))"
    by (simp add: emptySchema_def verifyPatternSchema_def failR_def)
  have 4: "class_s orderSchema \<noteq> []"
    by (simp add: orderSchema_def)
  have 5: "verifyPatternSchema orderSchema True = (True, None)"
    by (simp add: orderSchema_def verifyPatternSchema_def failR_def okR_def const_defs
        validTypes_def lookupBool_def isLower_def isIDChar_def)
  show ?thesis
    using verifyRuleSchema_fail_fast [of "emptySchema []" True]
      verifyRuleSchema_fail_fast [of "emptySchema ''order''" True "ErrPatternSchemaEmpty ''order''"]
      verifyRuleSchema_fail_fast [of orderSchema True] 1 2 3 4 5
    by simp
qed

subsection \<open>Referential checks\<close>

lemma doesRuleSetExist_eq:
  "doesRuleSetExist reg c =
     (if resolves reg c then (True, None) else (False, Some (ErrRuleSetNotExist c)))"
  by (auto simp: doesRuleSetExist_def resolves_def okR_def failR_def map_of_eq_None_iff)

lemma refRulesLoop_find:
  "refRulesLoop reg rs =
     map_option (\<lambda>c. (False, Some (ErrRuleSetNotExist c)))
       (find (\<lambda>c. \<not> resolves reg c) (concat (map ruleCalls rs)))"
  by (induction rs) (simp_all add: doesRuleSetExist_eq ruleCalls_def)

lemma find_append_case:
  "find P (xs @ ys) = (case find P xs of None \<Rightarrow> find P ys | Some x \<Rightarrow> Some x)"
  by (induction xs) simp_all

lemma refSetsLoop_find:
  "refSetsLoop reg rest = firstUnresolved reg (allCalls rest)"
  by (induction rest)
    (auto simp: firstUnresolved_def allCalls_def okR_def failR_def refRulesLoop_find
      find_append_case split: option.splits)

lemma fst_firstUnresolved:
  "fst (firstUnresolved reg cs) \<longleftrightarrow> (\<forall>c\<in>set cs. resolves reg c)"
proof (cases "find (\<lambda>c. \<not> resolves reg c) cs")
  case None
  then have "\<forall>c\<in>set cs. resolves reg c"
    by (auto simp: find_None_iff)
  with None show ?thesis
    by (simp add: firstUnresolved_def)
next
  case (Some c)
  then have "c \<in> set cs" "\<not> resolves reg c"
    by (auto simp: find_Some_iff)
  with Some show ?thesis
    by (auto simp: firstUnresolved_def)
qed

text \<open>
  C6. \<^verbatim>\<open>doReferentialChecks\<close> returns ok exactly when, for every rule of every
  registered rule set, \<^verbatim>\<open>thenCall\<close> and \<^verbatim>\<open>elseCall\<close> are each empty or the name of
  a registered rule set. Otherwise the result is the error that names the first name, in
  the order the loops visit them, that is not empty and not registered, and the message of
  that error is "ruleset", the name, "does not exist".
\<close>

theorem doReferentialChecks_resolves:
  "(fst (doReferentialChecks ruleSets) \<longleftrightarrow>
      (\<forall>(n, rs) \<in> set ruleSets. \<forall>r \<in> set (rules rs).
         (thenCall (ruleActions r) = [] \<or> thenCall (ruleActions r) \<in> fst ` set ruleSets) \<and>
         (elseCall (ruleActions r) = [] \<or> elseCall (ruleActions r) \<in> fst ` set ruleSets))) \<and>
   doReferentialChecks ruleSets = firstUnresolved ruleSets (allCalls ruleSets) \<and>
   (\<forall>c. snd (doReferentialChecks ruleSets) = Some (ErrRuleSetNotExist c) \<longrightarrow>
      errorMsg (ErrRuleSetNotExist c) = ''ruleset '' @ c @ '' does not exist'')"
proof (intro conjI)
  have eq: "doReferentialChecks ruleSets = firstUnresolved ruleSets (allCalls ruleSets)"
    by (simp add: doReferentialChecks_def refSetsLoop_find)
  then show "doReferentialChecks ruleSets = firstUnresolved ruleSets (allCalls ruleSets)" .
  have "fst (doReferentialChecks ruleSets) \<longleftrightarrow>
          (\<forall>c \<in> set (allCalls ruleSets). resolves ruleSets c)"
    by (simp add: eq fst_firstUnresolved)
  also have "\<dots> \<longleftrightarrow> (\<forall>(n, rs) \<in> set ruleSets. \<forall>r \<in> set (rules rs).
         (thenCall (ruleActions r) = [] \<or> thenCall (ruleActions r) \<in> fst ` set ruleSets) \<and>
         (elseCall (ruleActions r) = [] \<or> elseCall (ruleActions r) \<in> fst ` set ruleSets))"
    by (fastforce simp: allCalls_def ruleCalls_def resolves_def)
  finally show "fst (doReferentialChecks ruleSets) \<longleftrightarrow>
      (\<forall>(n, rs) \<in> set ruleSets. \<forall>r \<in> set (rules rs).
         (thenCall (ruleActions r) = [] \<or> thenCall (ruleActions r) \<in> fst ` set ruleSets) \<and>
         (elseCall (ruleActions r) = [] \<or> elseCall (ruleActions r) \<in> fst ` set ruleSets))" .
  show "\<forall>c. snd (doReferentialChecks ruleSets) = Some (ErrRuleSetNotExist c) \<longrightarrow>
      errorMsg (ErrRuleSetNotExist c) = ''ruleset '' @ c @ '' does not exist''"
    by simp
qed

text \<open>The registry whose rule set \<^verbatim>\<open>R1\<close> calls the missing \<^verbatim>\<open>R2\<close>.\<close>

theorem doReferentialChecks_resolves_witness:
  "doReferentialChecks r1Registry = (False, Some (ErrRuleSetNotExist ''R2'')) \<and>
   errorMsg (ErrRuleSetNotExist ''R2'') = ''ruleset R2 does not exist''"
proof -
  have "firstUnresolved r1Registry (allCalls r1Registry) =
          (False, Some (ErrRuleSetNotExist ''R2''))"
    by (simp add: firstUnresolved_def allCalls_def r1Registry_def ruleCalls_def resolves_def)
  then show ?thesis
    using doReferentialChecks_resolves [of r1Registry] by simp
qed

subsection \<open>Patterns of the rules\<close>

lemma stepFoundLoop_iff: "stepFoundLoop ts \<longleftrightarrow> (\<exists>t\<in>set ts. attrName t = step)"
  by (induction ts) auto

lemma rulePatternsLoop_shape:
  "rulePatternsLoop p n s w rs = okR \<or> (\<exists>e. rulePatternsLoop p n s w rs = failR e)"
  by (induction rs) (auto split: option.splits)

lemma rulePatternsLoop_ok:
  "fst (rulePatternsLoop p n s w rs) \<longleftrightarrow> (\<forall>r\<in>set rs. verifyRulePattern p n s w r = None)"
  by (induction rs) (auto simp: okR_def failR_def split: option.splits)

lemma verifyTerms_None:
  "verifyTerms p s ts = None \<longleftrightarrow> (\<forall>t\<in>set ts. verifyTerm p s t = None)"
  by (induction ts) (auto split: option.splits)

lemma verifyRulePattern_None:
  "verifyRulePattern p n s w r = None \<longleftrightarrow>
     (\<forall>t\<in>set (rulePattern r). verifyTerm p s t = None) \<and>
     (w \<longrightarrow> (\<exists>t\<in>set (rulePattern r). attrName t = step))"
proof (cases "verifyTerms p s (rulePattern r)")
  case None
  then show ?thesis
    using verifyTerms_None [of p s "rulePattern r"]
    by (simp add: verifyRulePattern_def stepFoundLoop_iff)
next
  case (Some e)
  then have "\<not> (\<forall>t\<in>set (rulePattern r). verifyTerm p s t = None)"
    using verifyTerms_None [of p s "rulePattern r"] by simp
  with Some show ?thesis
    by (simp add: verifyRulePattern_def)
qed

text \<open>
  C1, as the code has it. For a workflow, \<^verbatim>\<open>verifyRulePatterns\<close> returns ok only if
  every rule has at least one term on \<^verbatim>\<open>step\<close>, and a rule set with a rule that has
  no such term is rejected with an error. The loop stops at the first term on
  \<^verbatim>\<open>step\<close> and never counts them.
\<close>

theorem verifyRulePatterns_step_present:
  "(fst (verifyRulePatterns parseTS ruleSet schema True) \<longrightarrow>
      (\<forall>rule\<in>set (rules ruleSet). stepTerms rule \<noteq> [])) \<and>
   ((\<exists>rule\<in>set (rules ruleSet). stepTerms rule = []) \<longrightarrow>
      (\<exists>e. verifyRulePatterns parseTS ruleSet schema True = (False, Some e)))"
proof -
  have 1: "fst (verifyRulePatterns parseTS ruleSet schema True) \<longrightarrow>
      (\<forall>rule\<in>set (rules ruleSet). stepTerms rule \<noteq> [])"
    by (auto simp: verifyRulePatterns_def rulePatternsLoop_ok verifyRulePattern_None
        stepTerms_def filter_empty_conv)
  moreover have "(\<exists>rule\<in>set (rules ruleSet). stepTerms rule = []) \<longrightarrow>
      (\<exists>e. verifyRulePatterns parseTS ruleSet schema True = (False, Some e))"
    using 1 rulePatternsLoop_shape [of parseTS "setName ruleSet" schema True "rules ruleSet"]
    by (auto simp: verifyRulePatterns_def okR_def failR_def)
  ultimately show ?thesis by blast
qed

lemmas eval_defs = const_defs okR_def failR_def lookupBool_def validTypes_def validOps_def
  isLower_def isIDChar_def getType_def verifyType_def verifyTerm_def verifyRulePattern_def
  verifyRulePatterns_def

text \<open>
  C1 as stated asks for exactly one term on \<^verbatim>\<open>step\<close>. The rule set whose only rule
  has two of them is accepted.
\<close>

theorem two_step_terms_counterexample:
  "verifyRulePatterns noTS twoStepRuleSet orderSchema True = (True, None) \<and>
   length (stepTerms twoStepRule) = 2 \<and> rules twoStepRuleSet = [twoStepRule]"
  by (simp add: twoStepRuleSet_def twoStepRule_def orderSchema_def stepTerms_def eval_defs)

text \<open>The accepted rule set above, and the rule set whose rule has no term on \<^verbatim>\<open>step\<close>.\<close>

theorem verifyRulePatterns_step_present_witness:
  "stepTerms twoStepRule \<noteq> [] \<and>
   (\<exists>e. verifyRulePatterns noTS noStepRuleSet orderSchema True = (False, Some e))"
proof -
  have a: "fst (verifyRulePatterns noTS twoStepRuleSet orderSchema True)"
    by (simp add: twoStepRuleSet_def twoStepRule_def orderSchema_def eval_defs)
  have b: "twoStepRule \<in> set (rules twoStepRuleSet)"
    by (simp add: twoStepRuleSet_def)
  have c: "\<exists>rule\<in>set (rules noStepRuleSet). stepTerms rule = []"
    by (simp add: noStepRuleSet_def noStepRule_def stepTerms_def const_defs)
  show ?thesis
    using verifyRulePatterns_step_present [of noTS twoStepRuleSet orderSchema]
      verifyRulePatterns_step_present [of noTS noStepRuleSet orderSchema] a b c
    by blast
qed

lemma getTypeLoop_absent: "n \<notin> name ` set as \<Longrightarrow> getTypeLoop as n = []"
  by (induction as) auto

lemma isStringInArray_iff: "isStringInArray s arr \<longleftrightarrow> s \<in> set arr"
  by (induction arr) auto




subsection \<open>Actions of the rules\<close>

lemma verifyRuleTasks_None:
  "verifyRuleTasks declared ts = None \<longleftrightarrow> set ts \<subseteq> set declared"
  by (induction ts) (auto simp: isStringInArray_iff)

lemma verifyRuleProps_None:
  "verifyRuleProps declared props = None \<longleftrightarrow> fst ` set props \<subseteq> set declared"
  by (induction declared props rule: verifyRuleProps.induct) (auto simp: isStringInArray_iff)

lemma verifyRuleTasks_err: "verifyRuleTasks declared ts = Some e \<Longrightarrow> \<exists>t. e = ErrTaskNotInSchema t"
  by (induction ts) (auto split: if_splits)

lemma verifyRuleProps_err: "verifyRuleProps declared props = Some e \<Longrightarrow> \<exists>p. e = ErrPropNotInSchema p"
  by (induction declared props rule: verifyRuleProps.induct) (auto split: if_splits)

lemma nextStepAndDoneLoop_eq:
  "nextStepAndDoneLoop props ns dn =
     (ns \<or> nextStep \<in> fst ` set props, dn \<or> (done_c, trueStr) \<in> set props)"
  by (induction props arbitrary: ns dn) auto

lemma areNextStepAndDoneInProps_eq:
  "areNextStepAndDoneInProps props =
     (nextStep \<in> fst ` set props, (done_c, trueStr) \<in> set props)"
  by (simp add: areNextStepAndDoneInProps_def nextStepAndDoneLoop_eq)

lemma getNextStep_map_of:
  "getNextStep props = (case map_of props nextStep of None \<Rightarrow> [] | Some v \<Rightarrow> v)"
  by (induction props) auto

lemma ruleActionsLoop_shape:
  "ruleActionsLoop n s w rs = okR \<or> (\<exists>e. ruleActionsLoop n s w rs = failR e)"
  by (induction rs) (auto split: option.splits)

lemma ruleActionsLoop_ok:
  "fst (ruleActionsLoop n s w rs) \<longleftrightarrow> (\<forall>r\<in>set rs. verifyRuleAction n s w r = None)"
  by (induction rs) (auto simp: okR_def failR_def split: option.splits)

lemma ruleActionsLoop_first:
  "\<forall>r\<in>set pre. verifyRuleAction n s w r = None \<Longrightarrow>
   ruleActionsLoop n s w (pre @ rule # post) =
     (case verifyRuleAction n s w rule of
        Some e \<Rightarrow> failR e
      | None \<Rightarrow> ruleActionsLoop n s w post)"
  by (induction pre) auto

lemma verifyRuleAction_neither:
  "verifyRuleAction n s True rule = Some (ErrNeitherNextStepNorDone n) \<longleftrightarrow>
     set (tasks_a (ruleActions rule)) \<subseteq> set (tasks_s (actionSchema s)) \<and>
     fst ` set (properties_a (ruleActions rule)) \<subseteq> set (properties_s (actionSchema s)) \<and>
     \<not> (willReturn (ruleActions rule) \<and> willExit (ruleActions rule)) \<and>
     nextStep \<notin> fst ` set (properties_a (ruleActions rule)) \<and>
     (done_c, trueStr) \<notin> set (properties_a (ruleActions rule))"
proof (cases "verifyRuleTasks (tasks_s (actionSchema s)) (tasks_a (ruleActions rule))")
  case (Some e)
  then show ?thesis
    using verifyRuleTasks_err [OF Some] verifyRuleTasks_None [of "tasks_s (actionSchema s)" "tasks_a (ruleActions rule)"]
    by (auto simp: verifyRuleAction_def)
next
  case None
  note t = None
  show ?thesis
  proof (cases "verifyRuleProps (properties_s (actionSchema s)) (properties_a (ruleActions rule))")
    case (Some e)
    then show ?thesis
      using verifyRuleProps_err [OF Some] t
        verifyRuleProps_None [of "properties_s (actionSchema s)" "properties_a (ruleActions rule)"]
      by (auto simp: verifyRuleAction_def)
  next
    case None
    have a: "set (tasks_a (ruleActions rule)) \<subseteq> set (tasks_s (actionSchema s))"
      using t by (simp add: verifyRuleTasks_None)
    have b: "fst ` set (properties_a (ruleActions rule)) \<subseteq> set (properties_s (actionSchema s))"
      using None by (simp add: verifyRuleProps_None)
    show ?thesis
      using a b by (simp add: verifyRuleAction_def t None areNextStepAndDoneInProps_eq Let_def)
  qed
qed

lemma ruleActionsLoop_fail:
  "ruleActionsLoop n s w rs = (False, Some e) \<longleftrightarrow>
     (\<exists>pre rule post. rs = pre @ rule # post \<and>
        (\<forall>r\<in>set pre. verifyRuleAction n s w r = None) \<and> verifyRuleAction n s w rule = Some e)"
proof
  assume "ruleActionsLoop n s w rs = (False, Some e)"
  then show "\<exists>pre rule post. rs = pre @ rule # post \<and>
        (\<forall>r\<in>set pre. verifyRuleAction n s w r = None) \<and> verifyRuleAction n s w rule = Some e"
  proof (induction rs)
    case Nil
    then show ?case by (simp add: okR_def)
  next
    case (Cons r rs)
    show ?case
    proof (cases "verifyRuleAction n s w r")
      case None
      with Cons obtain pre rule post where
        "rs = pre @ rule # post" "\<forall>r\<in>set pre. verifyRuleAction n s w r = None"
        "verifyRuleAction n s w rule = Some e"
        by auto
      with None have "r # rs = (r # pre) @ rule # post \<and>
        (\<forall>r\<in>set (r # pre). verifyRuleAction n s w r = None) \<and>
        verifyRuleAction n s w rule = Some e"
        by simp
      then show ?thesis by blast
    next
      case (Some e')
      with Cons.prems have "e' = e" by (simp add: failR_def)
      with Some have "r # rs = [] @ r # rs \<and>
        (\<forall>r\<in>set []. verifyRuleAction n s w r = None) \<and> verifyRuleAction n s w r = Some e"
        by simp
      then show ?thesis by blast
    qed
  qed
next
  assume "\<exists>pre rule post. rs = pre @ rule # post \<and>
        (\<forall>r\<in>set pre. verifyRuleAction n s w r = None) \<and> verifyRuleAction n s w rule = Some e"
  then show "ruleActionsLoop n s w rs = (False, Some e)"
    by (auto simp: ruleActionsLoop_first failR_def)
qed

text \<open>
  C2, as the code has it. For a workflow, the result of \<^verbatim>\<open>verifyRuleActions\<close> is the
  error "rule found with neither nextstep nor done" exactly when the first rule that fails
  has only declared tasks and declared property names, not both RETURN and EXIT, no
  \<^verbatim>\<open>nextstep\<close> entry among its properties, and no \<^verbatim>\<open>done\<close> entry whose value is
  "true". A \<^verbatim>\<open>done\<close> entry with any other value counts as absent.
\<close>

theorem verifyRuleActions_neither_error:
  "verifyRuleActions ruleSet schema True =
     (False, Some (ErrNeitherNextStepNorDone (setName ruleSet))) \<longleftrightarrow>
   (\<exists>pre rule post. rules ruleSet = pre @ rule # post \<and>
      (\<forall>r\<in>set pre. verifyRuleAction (setName ruleSet) schema True r = None) \<and>
      set (tasks_a (ruleActions rule)) \<subseteq> set (tasks_s (actionSchema schema)) \<and>
      fst ` set (properties_a (ruleActions rule)) \<subseteq> set (properties_s (actionSchema schema)) \<and>
      \<not> (willReturn (ruleActions rule) \<and> willExit (ruleActions rule)) \<and>
      nextStep \<notin> fst ` set (properties_a (ruleActions rule)) \<and>
      (done_c, trueStr) \<notin> set (properties_a (ruleActions rule)))"
  by (simp only: verifyRuleActions_def ruleActionsLoop_fail verifyRuleAction_neither)

lemmas action_eval_defs = const_defs okR_def failR_def verifyRuleActions_def
  verifyRuleAction_def areNextStepAndDoneInProps_def

text \<open>
  C2 as stated lets a \<^verbatim>\<open>done\<close> entry with any value avoid the error. The rule whose
  only property is \<^verbatim>\<open>done\<close> with the value "false" gets it.
\<close>

theorem done_false_counterexample:
  "verifyRuleActions doneFalseRuleSet orderSchema True =
     (False, Some (ErrNeitherNextStepNorDone ''wf'')) \<and>
   rules doneFalseRuleSet = [doneFalseRule] \<and>
   map_of (properties_a (ruleActions doneFalseRule)) done_c = Some ''false''"
  by (simp add: doneFalseRuleSet_def doneFalseRule_def orderSchema_def action_eval_defs)

text \<open>The rule with \<^verbatim>\<open>done\<close> = "false" gets the error, the rule with \<^verbatim>\<open>done\<close> = "true" does not.\<close>

theorem verifyRuleActions_neither_error_witness:
  "verifyRuleActions doneFalseRuleSet orderSchema True =
     (False, Some (ErrNeitherNextStepNorDone (setName doneFalseRuleSet))) \<and>
   verifyRuleActions doneTrueRuleSet orderSchema True \<noteq>
     (False, Some (ErrNeitherNextStepNorDone (setName doneTrueRuleSet)))"
proof -
  have a: "rules doneFalseRuleSet = [] @ doneFalseRule # [] \<and>
      (\<forall>r\<in>set []. verifyRuleAction (setName doneFalseRuleSet) orderSchema True r = None) \<and>
      set (tasks_a (ruleActions doneFalseRule)) \<subseteq> set (tasks_s (actionSchema orderSchema)) \<and>
      fst ` set (properties_a (ruleActions doneFalseRule))
        \<subseteq> set (properties_s (actionSchema orderSchema)) \<and>
      \<not> (willReturn (ruleActions doneFalseRule) \<and> willExit (ruleActions doneFalseRule)) \<and>
      nextStep \<notin> fst ` set (properties_a (ruleActions doneFalseRule)) \<and>
      (done_c, trueStr) \<notin> set (properties_a (ruleActions doneFalseRule))"
    by (simp add: doneFalseRuleSet_def doneFalseRule_def orderSchema_def const_defs)
  have b: "\<not> (\<exists>pre rule post. rules doneTrueRuleSet = pre @ rule # post \<and>
      (\<forall>r\<in>set pre. verifyRuleAction (setName doneTrueRuleSet) orderSchema True r = None) \<and>
      set (tasks_a (ruleActions rule)) \<subseteq> set (tasks_s (actionSchema orderSchema)) \<and>
      fst ` set (properties_a (ruleActions rule))
        \<subseteq> set (properties_s (actionSchema orderSchema)) \<and>
      \<not> (willReturn (ruleActions rule) \<and> willExit (ruleActions rule)) \<and>
      nextStep \<notin> fst ` set (properties_a (ruleActions rule)) \<and>
      (done_c, trueStr) \<notin> set (properties_a (ruleActions rule)))"
    by (auto simp: doneTrueRuleSet_def doneTrueRule_def const_defs Cons_eq_append_conv)
  from a have a': "\<exists>pre rule post. rules doneFalseRuleSet = pre @ rule # post \<and>
      (\<forall>r\<in>set pre. verifyRuleAction (setName doneFalseRuleSet) orderSchema True r = None) \<and>
      set (tasks_a (ruleActions rule)) \<subseteq> set (tasks_s (actionSchema orderSchema)) \<and>
      fst ` set (properties_a (ruleActions rule))
        \<subseteq> set (properties_s (actionSchema orderSchema)) \<and>
      \<not> (willReturn (ruleActions rule) \<and> willExit (ruleActions rule)) \<and>
      nextStep \<notin> fst ` set (properties_a (ruleActions rule)) \<and>
      (done_c, trueStr) \<notin> set (properties_a (ruleActions rule))"
    by blast
  show ?thesis
    using verifyRuleActions_neither_error [of doneFalseRuleSet orderSchema]
      verifyRuleActions_neither_error [of doneTrueRuleSet orderSchema] a' b
    by blast
qed

lemma verifyRuleAction_nextstep:
  assumes "verifyRuleAction n s True rule = None"
    and "map_of (properties_a (ruleActions rule)) nextStep = Some v" and "v \<noteq> []"
  shows "v \<in> set (tasks_a (ruleActions rule))"
proof -
  have ns: "getNextStep (properties_a (ruleActions rule)) = v"
    using assms(2) by (simp add: getNextStep_map_of)
  show ?thesis
    using assms(1,3)
    by (auto simp: verifyRuleAction_def ns Let_def isStringInArray_iff
        split: option.splits prod.splits if_splits)
qed

text \<open>
  C4, as the code has it. In a workflow rule set that \<^verbatim>\<open>verifyRuleActions\<close> accepts,
  a rule whose properties give \<^verbatim>\<open>nextstep\<close> a value that is not the empty string has
  that value among its own tasks; a rule set with a rule whose \<^verbatim>\<open>nextstep\<close> is not
  empty and not one of the rule's tasks is rejected. An empty \<^verbatim>\<open>nextstep\<close> is treated
  as one that is not set.
\<close>

theorem verifyRuleActions_nextstep_in_tasks:
  "(fst (verifyRuleActions ruleSet schema True) \<longrightarrow>
      (\<forall>rule\<in>set (rules ruleSet). \<forall>v.
         map_of (properties_a (ruleActions rule)) nextStep = Some v \<longrightarrow> v \<noteq> [] \<longrightarrow>
           v \<in> set (tasks_a (ruleActions rule)))) \<and>
   ((\<exists>rule\<in>set (rules ruleSet). \<exists>v.
       map_of (properties_a (ruleActions rule)) nextStep = Some v \<and> v \<noteq> [] \<and>
       v \<notin> set (tasks_a (ruleActions rule))) \<longrightarrow>
      (\<exists>e. verifyRuleActions ruleSet schema True = (False, Some e)))"
proof -
  have 1: "fst (verifyRuleActions ruleSet schema True) \<longrightarrow>
      (\<forall>rule\<in>set (rules ruleSet). \<forall>v.
         map_of (properties_a (ruleActions rule)) nextStep = Some v \<longrightarrow> v \<noteq> [] \<longrightarrow>
           v \<in> set (tasks_a (ruleActions rule)))"
    using verifyRuleAction_nextstep
    by (auto simp: verifyRuleActions_def ruleActionsLoop_ok)
  have 2: "(\<exists>rule\<in>set (rules ruleSet). \<exists>v.
       map_of (properties_a (ruleActions rule)) nextStep = Some v \<and> v \<noteq> [] \<and>
       v \<notin> set (tasks_a (ruleActions rule))) \<longrightarrow>
      (\<exists>e. verifyRuleActions ruleSet schema True = (False, Some e))"
  proof
    assume "\<exists>rule\<in>set (rules ruleSet). \<exists>v.
       map_of (properties_a (ruleActions rule)) nextStep = Some v \<and> v \<noteq> [] \<and>
       v \<notin> set (tasks_a (ruleActions rule))"
    with 1 have "\<not> fst (verifyRuleActions ruleSet schema True)"
      by blast
    then show "\<exists>e. verifyRuleActions ruleSet schema True = (False, Some e)"
      using ruleActionsLoop_shape [of "setName ruleSet" schema True "rules ruleSet"]
      by (auto simp: verifyRuleActions_def okR_def failR_def)
  qed
  show ?thesis
    by (rule conjI [OF 1 2])
qed

text \<open>
  C4 as stated covers every value of \<^verbatim>\<open>nextstep\<close>. The rule that sets it to the empty
  string, which is none of its tasks, is accepted.
\<close>

theorem empty_nextstep_counterexample:
  "verifyRuleActions emptyNextStepRuleSet orderSchema True = (True, None) \<and>
   rules emptyNextStepRuleSet = [emptyNextStepRule] \<and>
   map_of (properties_a (ruleActions emptyNextStepRule)) nextStep = Some [] \<and>
   [] \<notin> set (tasks_a (ruleActions emptyNextStepRule))"
  by (simp add: emptyNextStepRuleSet_def emptyNextStepRule_def orderSchema_def action_eval_defs)

text \<open>
  An accepted rule with \<^verbatim>\<open>nextstep\<close> = \<^verbatim>\<open>approve\<close>, and the rejected rule whose
  \<^verbatim>\<open>nextstep\<close> is \<^verbatim>\<open>reject\<close> while its only task is \<^verbatim>\<open>approve\<close>.
\<close>

theorem verifyRuleActions_nextstep_in_tasks_witness:
  "''approve'' \<in> set (tasks_a (ruleActions twoStepRule)) \<and>
   (\<exists>e. verifyRuleActions wrongNextStepRuleSet orderSchema True = (False, Some e))"
proof -
  have a: "fst (verifyRuleActions twoStepRuleSet orderSchema True)"
    by (simp add: twoStepRuleSet_def twoStepRule_def orderSchema_def action_eval_defs)
  have b: "twoStepRule \<in> set (rules twoStepRuleSet)"
    by (simp add: twoStepRuleSet_def)
  have c: "map_of (properties_a (ruleActions twoStepRule)) nextStep = Some ''approve''"
    by (simp add: twoStepRule_def const_defs)
  have d: "\<exists>rule\<in>set (rules wrongNextStepRuleSet). \<exists>v.
       map_of (properties_a (ruleActions rule)) nextStep = Some v \<and> v \<noteq> [] \<and>
       v \<notin> set (tasks_a (ruleActions rule))"
    by (simp add: wrongNextStepRuleSet_def wrongNextStepRule_def const_defs)
  have e: "''approve'' \<noteq> []"
    by simp
  show ?thesis
    using verifyRuleActions_nextstep_in_tasks [of twoStepRuleSet orderSchema]
      verifyRuleActions_nextstep_in_tasks [of wrongNextStepRuleSet orderSchema] a b c d e
    by blast
qed

subsection \<open>Attributes declared twice\<close>

lemmas schema_eval_defs = const_defs okR_def failR_def lookupBool_def validTypes_def
  isLower_def isIDChar_def verifyRuleSchema_def verifyPatternSchema_def verifyActionSchema_def
  getTasksMapForWF_def getStepAttrVals_def deepEqual_def

lemma getTypeLoop_first:
  "name a \<notin> name ` set pre \<Longrightarrow> getTypeLoop (pre @ a # post) (name a) = valType a"
  by (induction pre) auto

text \<open>
  C10. A pattern-schema may declare a name twice: the workflow schema \<open>dupSchema\<close>, whose
  pattern-schema declares \<^verbatim>\<open>stepfailed\<close> as a bool and then as an int, is accepted by
  \<^verbatim>\<open>verifyRuleSchema\<close>; and in every schema \<^verbatim>\<open>getType\<close> gives for a name the type
  of the first attribute that has it, whatever is declared after.
\<close>

theorem duplicate_attribute_names:
  "verifyRuleSchema dupSchema True = (True, None) \<and>
   \<not> distinct (map name (patternSchema dupSchema)) \<and>
   (\<forall>rs pre a post. patternSchema rs = pre @ a # post \<longrightarrow> name a \<notin> name ` set pre \<longrightarrow>
      getType rs (name a) = valType a)"
proof (intro conjI allI impI)
  show "verifyRuleSchema dupSchema True = (True, None)"
    by (simp add: dupSchema_def orderSchema_def schema_eval_defs)
  show "\<not> distinct (map name (patternSchema dupSchema))"
    by (simp add: dupSchema_def orderSchema_def)
  show "getType rs (name a) = valType a"
    if "patternSchema rs = pre @ a # post" "name a \<notin> name ` set pre" for rs pre a post
    using that by (simp add: getType_def getTypeLoop_first)
qed

text \<open>In \<open>dupSchema\<close> the type of \<^verbatim>\<open>stepfailed\<close> is that of its first declaration.\<close>

theorem duplicate_attribute_names_witness:
  "getType dupSchema ''stepfailed'' = typeBool"
proof -
  have a: "patternSchema dupSchema =
      [\<lparr>name = ''step'', valType = typeEnum,
          vals = [(''START'', True), (''approve'', True), (''reject'', True)]\<rparr>] @
      \<lparr>name = ''stepfailed'', valType = typeBool, vals = []\<rparr> #
      [\<lparr>name = ''stepfailed'', valType = typeInt, vals = []\<rparr>]"
    by (simp add: dupSchema_def orderSchema_def)
  have b: "name \<lparr>name = ''stepfailed'', valType = typeBool, vals = []\<rparr> \<notin>
      name ` set [\<lparr>name = ''step'', valType = typeEnum,
          vals = [(''START'', True), (''approve'', True), (''reject'', True)]\<rparr>]"
    by simp
  from duplicate_attribute_names a b
  have "getType dupSchema (name \<lparr>name = ''stepfailed'', valType = typeBool, vals = []\<rparr>) =
      valType \<lparr>name = ''stepfailed'', valType = typeBool, vals = []\<rparr>"
    by blast
  then show ?thesis by simp
qed

subsection \<open>Entities\<close>



lemma getType_absent: "n \<notin> name ` set (patternSchema rs) \<Longrightarrow> getType rs n = []"
  by (simp add: getType_def getTypeLoop_absent)

lemma entityAttrsLoop_None:
  "entityAttrsLoop converts rs m = None \<longleftrightarrow>
     (\<forall>(n, v)\<in>set m. getType rs n \<noteq> [] \<and> converts v (getType rs n))"
  by (induction converts rs m rule: entityAttrsLoop.induct) (auto simp: Let_def)


lemma verifyEntity_ok:
  "fst (verifyEntity converts ruleSchemas e) \<longleftrightarrow>
     (\<exists>rs. getSchema ruleSchemas (class_e e) = Inr rs \<and>
        (\<forall>(n, v)\<in>set (attrs e). getType rs n \<noteq> [] \<and> converts v (getType rs n)) \<and>
        length (attrs e) = length (patternSchema rs))"
proof (cases "getSchema ruleSchemas (class_e e)")
  case (Inl err)
  then show ?thesis
    by (simp add: verifyEntity_def failR_def)
next
  case (Inr rs)
  show ?thesis
  proof (cases "entityAttrsLoop converts rs (attrs e)")
    case None
    then show ?thesis
      using entityAttrsLoop_None [of converts rs "attrs e"]
      by (simp add: verifyEntity_def Inr failR_def okR_def)
  next
    case (Some err)
    then have "\<not> (\<forall>(n, v)\<in>set (attrs e). getType rs n \<noteq> [] \<and> converts v (getType rs n))"
      using entityAttrsLoop_None [of converts rs "attrs e"] by simp
    with Some show ?thesis
      by (simp add: verifyEntity_def Inr failR_def)
  qed
qed


text \<open>
  Every schema that \<^verbatim>\<open>verifyRuleSchema\<close> accepts declares a valid type, which is not
  the empty string, for each attribute; the registry holds accepted schemas only.
\<close>

lemma validTypes_nonempty: "validTypes t \<Longrightarrow> t \<noteq> []"
  by (auto simp: validTypes_def lookupBool_def const_defs)

lemma patternSchemaLoop_validTypes:
  "fst (patternSchemaLoop c w as sf sff) \<Longrightarrow> \<forall>a\<in>set as. validTypes (valType a)"
  by (induction as arbitrary: sf sff)
    (auto simp: failR_def Let_def split: if_splits option.splits)

lemma verified_schema_types:
  assumes "fst (verifyRuleSchema rs w)"
  shows "\<forall>a\<in>set (patternSchema rs). valType a \<noteq> []"
proof -
  have "fst (verifyPatternSchema rs w)"
    using assms verifyPatternSchema_shape [of rs w]
    by (auto simp: verifyRuleSchema_def failR_def okR_def split: if_splits option.splits)
  then have "\<forall>a\<in>set (patternSchema rs). validTypes (valType a)"
    using patternSchemaLoop_validTypes
    by (auto simp: verifyPatternSchema_def failR_def split: if_splits)
  then show ?thesis
    using validTypes_nonempty by blast
qed




subsection \<open>Tasks and steps of a workflow schema\<close>


lemma distinct_fold_update:
  "distinct (map fst acc) \<Longrightarrow> distinct (map fst (fold (\<lambda>t tm. AList.update t True tm) ts acc))"
  by (induction ts arbitrary: acc) (simp_all add: distinct_update)

lemma wfMap_getTasksMapForWF: "wfMap (getTasksMapForWF ts)"
  by (simp add: wfMap_def getTasksMapForWF_def distinct_update distinct_fold_update)


lemma wfMap_set: "wfMap m \<Longrightarrow> (k, v) \<in> set m \<longleftrightarrow> map_of m k = Some v"
  by (simp add: wfMap_def)


lemma wfMap_distinct: "wfMap m \<Longrightarrow> distinct m"
  by (simp add: wfMap_def distinct_map)

lemma deepEqual_set:
  assumes "wfMap m1" "wfMap m2"
  shows "deepEqual m1 m2 \<longleftrightarrow> set m1 = set m2"
proof -
  have sub: "list_all (\<lambda>(k, v). map_of m2 k = Some v) m1 \<longleftrightarrow> set m1 \<subseteq> set m2"
  proof -
    have "list_all (\<lambda>(k, v). map_of m2 k = Some v) m1 \<longleftrightarrow>
          (\<forall>x\<in>set m1. map_of m2 (fst x) = Some (snd x))"
      by (simp add: list_all_iff case_prod_beta)
    also have "\<dots> \<longleftrightarrow> (\<forall>x\<in>set m1. x \<in> set m2)"
      using wfMap_set [OF assms(2)] by (metis prod.collapse)
    finally show ?thesis
      by blast
  qed
  have d: "distinct m1" "distinct m2"
    using assms by (simp_all add: wfMap_distinct)
  show ?thesis
  proof
    assume "deepEqual m1 m2"
    then have len: "length m1 = length m2" and s: "set m1 \<subseteq> set m2"
      by (simp_all add: deepEqual_def sub)
    from len d have "card (set m1) = card (set m2)"
      by (simp add: distinct_card)
    with s show "set m1 = set m2"
      by (simp add: card_subset_eq)
  next
    assume e: "set m1 = set m2"
    then have "length m1 = length m2"
      using d by (metis distinct_card)
    with e show "deepEqual m1 m2"
      by (simp add: deepEqual_def sub)
  qed
qed












subsection \<open>Runs that visit the maps in different orders\<close>

lemma sameMap_length: "sameMap m1 m2 \<Longrightarrow> length m1 = length m2"
  by (metis sameMap_def wfMap_distinct distinct_card)

lemma sameMap_map_of: "sameMap m1 m2 \<Longrightarrow> map_of m1 k = map_of m2 k"
proof (cases "map_of m1 k")
  case None
  assume s: "sameMap m1 m2"
  from None have "k \<notin> fst ` set m1"
    by (simp add: map_of_eq_None_iff)
  with s have "k \<notin> fst ` set m2"
    by (simp add: sameMap_def)
  then have "map_of m2 k = None"
    by (simp add: map_of_eq_None_iff)
  with None show ?thesis by simp
next
  case (Some v)
  assume s: "sameMap m1 m2"
  then have "wfMap m1" "wfMap m2" "set m1 = set m2"
    by (simp_all add: sameMap_def)
  with Some have "map_of m2 k = Some v"
    by (simp add: wfMap_def)
  with Some show ?thesis by simp
qed

lemma verifyEnumVals_None:
  "verifyEnumVals m = None \<longleftrightarrow> (\<forall>x\<in>set m. isCruxID (fst x) \<or> fst x = start)"
  by (induction m rule: verifyEnumVals.induct) auto

lemma sameMap_verifyEnumVals:
  "sameMap m1 m2 \<Longrightarrow> verifyEnumVals m1 = None \<longleftrightarrow> verifyEnumVals m2 = None"
  by (simp add: verifyEnumVals_None sameMap_def)

lemma sameMap_lookupBool: "sameMap m1 m2 \<Longrightarrow> lookupBool m1 k = lookupBool m2 k"
  by (simp add: lookupBool_def sameMap_map_of [of m1 m2 k])

lemma patternSchemaLoop_same:
  "list_all2 sameAttr as bs \<Longrightarrow>
   fst (patternSchemaLoop c w as sf sff) = fst (patternSchemaLoop c w bs sf sff)"
proof (induction as bs arbitrary: sf sff rule: list_all2_induct)
  case Nil
  show ?case by simp
next
  case (Cons a as b bs)
  from Cons.hyps(1) have n: "name a = name b" and t: "valType a = valType b"
    and m: "sameMap (vals a) (vals b)"
    by (simp_all add: sameAttr_def)
  have len: "length (vals a) = length (vals b)"
    by (rule sameMap_length [OF m])
  have lk: "lookupBool (vals a) start = lookupBool (vals b) start"
    by (rule sameMap_lookupBool [OF m])
  show ?case
  proof (cases "verifyEnumVals (vals a)")
    case None
    then have "verifyEnumVals (vals b) = None"
      using sameMap_verifyEnumVals [OF m] by simp
    with None show ?thesis
      by (simp add: n t len lk Cons.IH failR_def Let_def)
  next
    case (Some e)
    then obtain e' where "verifyEnumVals (vals b) = Some e'"
      using sameMap_verifyEnumVals [OF m] by (cases "verifyEnumVals (vals b)") auto
    with Some show ?thesis
      by (simp add: n t len failR_def)
  qed
qed

lemma verifyPatternSchema_same:
  "sameSchema s1 s2 \<Longrightarrow> fst (verifyPatternSchema s1 w) = fst (verifyPatternSchema s2 w)"
  by (auto simp: sameSchema_def verifyPatternSchema_def failR_def patternSchemaLoop_same
      dest: list_all2_lengthD)

lemma sameMap_refl_Nil: "sameMap [] []"
  by (simp add: sameMap_def wfMap_def)

lemma getStepAttrValsLoop_same:
  "list_all2 sameAttr as bs \<Longrightarrow> sameMap (getStepAttrValsLoop as) (getStepAttrValsLoop bs)"
  by (induction as bs rule: list_all2_induct) (simp_all add: sameMap_refl_Nil sameAttr_def)

lemma deepEqual_same:
  assumes "sameMap m1 m2"
  shows "deepEqual (getTasksMapForWF ts) m1 = deepEqual (getTasksMapForWF ts) m2"
proof -
  from assms have w: "wfMap m1" "wfMap m2" and s: "set m1 = set m2"
    by (simp_all add: sameMap_def)
  show ?thesis
    by (simp only: deepEqual_set [OF wfMap_getTasksMapForWF w(1)]
        deepEqual_set [OF wfMap_getTasksMapForWF w(2)] s)
qed

lemma verifyActionSchema_same:
  assumes "sameSchema s1 s2"
  shows "verifyActionSchema s1 w = verifyActionSchema s2 w"
proof -
  from assms have c: "class_s s1 = class_s s2" and a: "actionSchema s1 = actionSchema s2"
    and p: "list_all2 sameAttr (patternSchema s1) (patternSchema s2)"
    by (simp_all add: sameSchema_def)
  have e: "deepEqual (getTasksMapForWF (tasks_s (actionSchema s2))) (getStepAttrVals s1) =
        deepEqual (getTasksMapForWF (tasks_s (actionSchema s2))) (getStepAttrVals s2)"
    unfolding getStepAttrVals_def by (rule deepEqual_same [OF getStepAttrValsLoop_same [OF p]])
  show ?thesis
    unfolding verifyActionSchema_def c a e by (rule refl)
qed

lemma fst_verifyRuleSchema:
  "fst (verifyRuleSchema rs w) \<longleftrightarrow>
     class_s rs \<noteq> [] \<and> fst (verifyPatternSchema rs w) \<and> fst (verifyActionSchema rs w)"
  using verifyPatternSchema_shape [of rs w] verifyActionSchema_shape [of rs w]
  by (auto simp: verifyRuleSchema_def okR_def failR_def)

lemma verifyRuleSchema_same:
  "sameSchema s1 s2 \<Longrightarrow> fst (verifyRuleSchema s1 w) = fst (verifyRuleSchema s2 w)"
  by (simp add: fst_verifyRuleSchema verifyPatternSchema_same [of s1 s2 w]
      verifyActionSchema_same [of s1 s2 w]) (simp add: sameSchema_def)

lemma verifyRuleAction_None:
  "verifyRuleAction n s w rule = None \<longleftrightarrow>
     set (tasks_a (ruleActions rule)) \<subseteq> set (tasks_s (actionSchema s)) \<and>
     fst ` set (properties_a (ruleActions rule)) \<subseteq> set (properties_s (actionSchema s)) \<and>
     \<not> (willReturn (ruleActions rule) \<and> willExit (ruleActions rule)) \<and>
     (w \<longrightarrow>
        (nextStep \<in> fst ` set (properties_a (ruleActions rule)) \<or>
         (done_c, trueStr) \<in> set (properties_a (ruleActions rule))) \<and>
        ((done_c, trueStr) \<in> set (properties_a (ruleActions rule)) \<or>
         tasks_a (ruleActions rule) \<noteq> []) \<and>
        (getNextStep (properties_a (ruleActions rule)) = [] \<or>
         getNextStep (properties_a (ruleActions rule)) \<in> set (tasks_a (ruleActions rule))))"
proof (cases "verifyRuleTasks (tasks_s (actionSchema s)) (tasks_a (ruleActions rule))")
  case (Some e)
  then have "\<not> set (tasks_a (ruleActions rule)) \<subseteq> set (tasks_s (actionSchema s))"
    using verifyRuleTasks_None [of "tasks_s (actionSchema s)" "tasks_a (ruleActions rule)"]
    by simp
  with Some show ?thesis
    by (simp add: verifyRuleAction_def)
next
  case None
  note t = None
  then have a: "set (tasks_a (ruleActions rule)) \<subseteq> set (tasks_s (actionSchema s))"
    by (simp add: verifyRuleTasks_None)
  show ?thesis
  proof (cases "verifyRuleProps (properties_s (actionSchema s)) (properties_a (ruleActions rule))")
    case (Some e)
    then have "\<not> fst ` set (properties_a (ruleActions rule)) \<subseteq> set (properties_s (actionSchema s))"
      using verifyRuleProps_None [of "properties_s (actionSchema s)" "properties_a (ruleActions rule)"]
      by simp
    with Some t show ?thesis
      by (simp add: verifyRuleAction_def)
  next
    case None
    then have b: "fst ` set (properties_a (ruleActions rule)) \<subseteq> set (properties_s (actionSchema s))"
      by (simp add: verifyRuleProps_None)
    show ?thesis
      using a b
      by (simp add: verifyRuleAction_def t None areNextStepAndDoneInProps_eq Let_def
          isStringInArray_iff)
  qed
qed

lemma sameMap_getNextStep: "sameMap m1 m2 \<Longrightarrow> getNextStep m1 = getNextStep m2"
  by (simp add: getNextStep_map_of sameMap_map_of [of m1 m2 nextStep])

lemma verifyRuleAction_same:
  assumes "sameRule r1 r2"
  shows "verifyRuleAction n s w r1 = None \<longleftrightarrow> verifyRuleAction n s w r2 = None"
proof -
  from assms have m: "sameMap (properties_a (ruleActions r1)) (properties_a (ruleActions r2))"
    and t: "tasks_a (ruleActions r1) = tasks_a (ruleActions r2)"
    and r: "willReturn (ruleActions r1) = willReturn (ruleActions r2)"
    and x: "willExit (ruleActions r1) = willExit (ruleActions r2)"
    by (simp_all add: sameRule_def sameActions_def)
  from m have st: "set (properties_a (ruleActions r1)) = set (properties_a (ruleActions r2))"
    by (simp add: sameMap_def)
  show ?thesis
    by (simp only: verifyRuleAction_None t r x st sameMap_getNextStep [OF m])
qed

lemma list_all2_ball:
  "list_all2 R xs ys \<Longrightarrow> (\<And>a b. R a b \<Longrightarrow> P a = Q b) \<Longrightarrow>
   (\<forall>x\<in>set xs. P x) = (\<forall>y\<in>set ys. Q y)"
  by (induction xs ys rule: list_all2_induct) simp_all

lemma verifyRuleActions_same:
  assumes "sameRuleSet rs1 rs2"
  shows "fst (verifyRuleActions rs1 s w) = fst (verifyRuleActions rs2 s w)"
proof -
  from assms have n: "setName rs1 = setName rs2"
    and l: "list_all2 sameRule (rules rs1) (rules rs2)"
    by (simp_all add: sameRuleSet_def)
  show ?thesis
    unfolding verifyRuleActions_def ruleActionsLoop_ok n
    by (rule list_all2_ball [OF l]) (rule verifyRuleAction_same)
qed

lemma verifyRulePattern_same:
  assumes "sameRule r1 r2"
  shows "verifyRulePattern p n s w r1 = verifyRulePattern p n s w r2"
proof -
  from assms have e: "rulePattern r1 = rulePattern r2"
    by (simp add: sameRule_def)
  show ?thesis
    unfolding verifyRulePattern_def e by (rule refl)
qed

lemma verifyRulePatterns_same:
  assumes "sameRuleSet rs1 rs2"
  shows "fst (verifyRulePatterns p rs1 s w) = fst (verifyRulePatterns p rs2 s w)"
proof -
  from assms have n: "setName rs1 = setName rs2"
    and l: "list_all2 sameRule (rules rs1) (rules rs2)"
    by (simp_all add: sameRuleSet_def)
  show ?thesis
    unfolding verifyRulePatterns_def rulePatternsLoop_ok n
    by (rule list_all2_ball [OF l]) (simp add: verifyRulePattern_same)
qed

lemma fst_verifyRuleSet:
  "fst (verifyRuleSet p schemas rs w) \<longleftrightarrow>
     (\<exists>s. getSchema schemas (class_r rs) = Inr s \<and> fst (verifyRulePatterns p rs s w) \<and>
          fst (verifyRuleActions rs s w))"
proof (cases "getSchema schemas (class_r rs)")
  case (Inl e)
  then show ?thesis
    by (simp add: verifyRuleSet_def failR_def)
next
  case (Inr s)
  then show ?thesis
    using rulePatternsLoop_shape [of p "setName rs" s w "rules rs"]
      ruleActionsLoop_shape [of "setName rs" s w "rules rs"]
    by (auto simp: verifyRuleSet_def verifyRulePatterns_def verifyRuleActions_def
        okR_def failR_def)
qed

lemma verifyRuleSet_same:
  assumes "sameRuleSet rs1 rs2"
  shows "fst (verifyRuleSet p schemas rs1 w) = fst (verifyRuleSet p schemas rs2 w)"
proof -
  from assms have c: "class_r rs1 = class_r rs2"
    by (simp add: sameRuleSet_def)
  show ?thesis
    by (simp only: fst_verifyRuleSet c verifyRulePatterns_same [OF assms]
        verifyRuleActions_same [OF assms])
qed

lemma doReferentialChecks_same:
  assumes "sameMap reg1 reg2"
  shows "fst (doReferentialChecks reg1) = fst (doReferentialChecks reg2)"
proof -
  from assms have s: "set reg1 = set reg2"
    by (simp add: sameMap_def)
  have ok: "fst (doReferentialChecks reg) \<longleftrightarrow> (\<forall>c\<in>set (allCalls reg). resolves reg c)" for reg
    by (simp add: doReferentialChecks_def refSetsLoop_find fst_firstUnresolved)
  have "set (allCalls reg1) = set (allCalls reg2)"
    by (simp add: allCalls_def s)
  moreover have "resolves reg1 c = resolves reg2 c" for c
    by (simp add: resolves_def s)
  ultimately show ?thesis
    by (simp add: ok)
qed

lemma verifyEntity_same:
  assumes "sameEntity e1 e2"
  shows "fst (verifyEntity conv schemas e1) = fst (verifyEntity conv schemas e2)"
proof -
  from assms have c: "class_e e1 = class_e e2" and m: "sameMap (attrs e1) (attrs e2)"
    by (simp_all add: sameEntity_def)
  from m have s: "set (attrs e1) = set (attrs e2)"
    by (simp add: sameMap_def)
  show ?thesis
    by (simp only: verifyEntity_ok c s sameMap_length [OF m])
qed

text \<open>
  C9, as the code has it. The verifiers read nothing but their arguments and the two
  registries, and whether they return ok does not depend on the order in which a run visits
  the entries of the maps: \<^verbatim>\<open>verifyRuleSchema\<close>, \<^verbatim>\<open>verifyRuleSet\<close>,
  \<^verbatim>\<open>doReferentialChecks\<close> and \<^verbatim>\<open>verifyEntity\<close> give the same ok flag on the same
  input, with the registries unchanged. The error of a rejected input is that of the first
  offending entry the run visits.
\<close>

theorem ok_independent_of_map_order:
  "(sameSchema s1 s2 \<longrightarrow> fst (verifyRuleSchema s1 isWF) = fst (verifyRuleSchema s2 isWF)) \<and>
   (sameRuleSet rs1 rs2 \<longrightarrow>
      fst (verifyRuleSet parseTS ruleSchemas rs1 isWF) =
      fst (verifyRuleSet parseTS ruleSchemas rs2 isWF)) \<and>
   (sameMap reg1 reg2 \<longrightarrow> fst (doReferentialChecks reg1) = fst (doReferentialChecks reg2)) \<and>
   (sameEntity e1 e2 \<longrightarrow>
      fst (verifyEntity converts ruleSchemas e1) = fst (verifyEntity converts ruleSchemas e2))"
  by (intro conjI impI verifyRuleSchema_same verifyRuleSet_same doReferentialChecks_same
      verifyEntity_same)

text \<open>
  C9 as stated has the error identical from run to run. The schema whose enum has the two
  values \<^verbatim>\<open>Red\<close> and \<^verbatim>\<open>Blue\<close>, neither an identifier, is rejected with the error
  that names \<^verbatim>\<open>Red\<close> when the loop over the values visits \<^verbatim>\<open>Red\<close> first, and with
  the error that names \<^verbatim>\<open>Blue\<close> when it visits \<^verbatim>\<open>Blue\<close> first.
\<close>

theorem map_order_error_counterexample:
  "sameSchema badEnumRedFirst badEnumBlueFirst \<and>
   verifyRuleSchema badEnumRedFirst False = (False, Some (ErrEnumValNotCruxID ''Red'')) \<and>
   verifyRuleSchema badEnumBlueFirst False = (False, Some (ErrEnumValNotCruxID ''Blue''))"
proof (intro conjI)
  show "sameSchema badEnumRedFirst badEnumBlueFirst"
    by (auto simp: badEnumRedFirst_def badEnumBlueFirst_def sameSchema_def sameAttr_def
        sameMap_def wfMap_def)
  show "verifyRuleSchema badEnumRedFirst False = (False, Some (ErrEnumValNotCruxID ''Red''))"
    by (simp add: badEnumRedFirst_def schema_eval_defs)
  show "verifyRuleSchema badEnumBlueFirst False = (False, Some (ErrEnumValNotCruxID ''Blue''))"
    by (simp add: badEnumBlueFirst_def schema_eval_defs)
qed

text \<open>
  The schema above, a rule set with two properties, a registry of two rule sets and an entity
  with two attributes, each in both orders.
\<close>

theorem ok_independent_of_map_order_witness:
  "fst (verifyRuleSchema badEnumRedFirst True) = fst (verifyRuleSchema badEnumBlueFirst True) \<and>
   fst (verifyRuleSet noTS [orderSchema]
          (twoPropsRuleSet [(''nextstep'', ''approve''), (''done'', ''false'')]) True) =
   fst (verifyRuleSet noTS [orderSchema]
          (twoPropsRuleSet [(''done'', ''false''), (''nextstep'', ''approve'')]) True) \<and>
   fst (doReferentialChecks
          [(''R1'', callingRuleSet ''R1'' ''R2''), (''R2'', callingRuleSet ''R2'' ''R3'')]) =
   fst (doReferentialChecks
          [(''R2'', callingRuleSet ''R2'' ''R3''), (''R1'', callingRuleSet ''R1'' ''R2'')]) \<and>
   fst (verifyEntity allConvert [orderSchema] fullEntity) =
   fst (verifyEntity allConvert [orderSchema] fullEntitySwapped)"
proof -
  have a: "sameSchema badEnumRedFirst badEnumBlueFirst"
    by (auto simp: badEnumRedFirst_def badEnumBlueFirst_def sameSchema_def sameAttr_def
        sameMap_def wfMap_def)
  have b: "sameRuleSet (twoPropsRuleSet [(''nextstep'', ''approve''), (''done'', ''false'')])
             (twoPropsRuleSet [(''done'', ''false''), (''nextstep'', ''approve'')])"
    by (auto simp: twoPropsRuleSet_def sameRuleSet_def sameRule_def sameActions_def
        sameMap_def wfMap_def)
  have c: "sameMap [(''R1'', callingRuleSet ''R1'' ''R2''), (''R2'', callingRuleSet ''R2'' ''R3'')]
             [(''R2'', callingRuleSet ''R2'' ''R3''), (''R1'', callingRuleSet ''R1'' ''R2'')]"
    by (auto simp: sameMap_def wfMap_def)
  have d: "sameEntity fullEntity fullEntitySwapped"
    by (auto simp: fullEntity_def fullEntitySwapped_def sameEntity_def sameMap_def wfMap_def)
  note T = ok_independent_of_map_order
    [of badEnumRedFirst badEnumBlueFirst True
      "twoPropsRuleSet [(''nextstep'', ''approve''), (''done'', ''false'')]"
      "twoPropsRuleSet [(''done'', ''false''), (''nextstep'', ''approve'')]"
      noTS "[orderSchema]"
      "[(''R1'', callingRuleSet ''R1'' ''R2''), (''R2'', callingRuleSet ''R2'' ''R3'')]"
      "[(''R2'', callingRuleSet ''R2'' ''R3''), (''R1'', callingRuleSet ''R1'' ''R2'')]"
      fullEntity fullEntitySwapped allConvert]
  show ?thesis
    using T a b c d by (simp only: simp_thms)
qed

end
